theory Spec2Isabelle
  imports Main "HOL-Library.AList" "HOL-Library.Sublist"
begin

section \<open>JavaScript values used by the tool handlers\<close>

text \<open>
  The handlers receive \<open>args: any\<close>. The model makes every argument optional:
  \<open>None\<close> is the JavaScript \<open>undefined\<close> of a property that the caller left out.
  Two arguments are arbitrary decoded JSON values (\<open>json\<close> below): the \<open>value\<close> of
  \<open>playwright_fill\<close> and the \<open>instruction\<close> of the browser-use tools, on which a
  handler calls string methods after it has written to its store. The other arguments
  have the type that the \<open>inputSchema\<close> declares. Numbers are integers (the
  schemas declare \<open>integer\<close>; fractions are outside the model), strings are lists of
  8-bit characters, one per code unit. A \<open>Date\<close> is its millisecond count, and every \<open>new Date()\<close> and
  \<open>Date.now()\<close> of one handler call reads the same instant \<open>now\<close>: a handler
  runs to completion without a suspension point.
\<close>

type_synonym time = int

datatype exn = Error string | TypeError string

fun message :: "exn \<Rightarrow> string" where
  "message (Error m) = m"
| "message (TypeError m) = m"

text \<open>A JavaScript number that may be \<open>NaN\<close>; \<open>Math.max\<close> returns \<open>NaN\<close> as soon
  as one operand is \<open>NaN\<close>, and \<open>ToNumber(undefined)\<close> is \<open>NaN\<close>.\<close>

datatype js_number = Num int | NaN

fun to_number :: "int option \<Rightarrow> js_number" where
  "to_number None = NaN"
| "to_number (Some n) = Num n"

fun math_max :: "js_number \<Rightarrow> js_number \<Rightarrow> js_number" where
  "math_max (Num a) (Num b) = Num (max a b)"
| "math_max _ _ = NaN"

text \<open>Truthiness: \<open>undefined\<close>, the empty string, \<open>0\<close> and \<open>false\<close> are falsy.\<close>

fun truthy_string :: "string option \<Rightarrow> bool" where
  "truthy_string None = False"
| "truthy_string (Some s) = (s \<noteq> [])"

fun truthy_number :: "int option \<Rightarrow> bool" where
  "truthy_number None = False"
| "truthy_number (Some n) = (n \<noteq> 0)"

fun truthy_bool :: "bool option \<Rightarrow> bool" where
  "truthy_bool None = False"
| "truthy_bool (Some b) = b"

text \<open>The truthy value of an optional string: what is left after a guard
  \<open>if (!x) throw\<close>.\<close>

fun present :: "string option \<Rightarrow> string option" where
  "present None = None"
| "present (Some s) = (if s = [] then None else Some s)"

text \<open>A decoded JSON value, as \<open>JSON.parse\<close> builds it from the request body; an
  object is the list of its own properties.\<close>

datatype json =
    JNull
  | JBool bool
  | JNum int
  | JStr string
  | JArr "json list"
  | JObj "(string \<times> json) list"

fun truthy_json :: "json \<Rightarrow> bool" where
  "truthy_json JNull = False"
| "truthy_json (JBool b) = b"
| "truthy_json (JNum n) = (n \<noteq> 0)"
| "truthy_json (JStr s) = (s \<noteq> [])"
| "truthy_json (JArr xs) = True"
| "truthy_json (JObj kvs) = True"

text \<open>The truthy value of an optional JSON argument.\<close>

fun present_json :: "json option \<Rightarrow> json option" where
  "present_json None = None"
| "present_json (Some v) = (if truthy_json v then Some v else None)"

text \<open>The decimal digits of an integer; this is \<open>Number.prototype.toString\<close> for
  integers below \<open>10^21\<close> in magnitude.\<close>

fun digits :: "nat \<Rightarrow> string" where
  "digits n = (if n < 10 then [char_of (48 + n)] else digits (n div 10) @ [char_of (48 + n mod 10)])"

definition number_to_string :: "int \<Rightarrow> string" where
  "number_to_string n = (if n < 0 then CHR ''-'' # digits (nat (- n)) else digits (nat n))"

fun join_comma :: "string list \<Rightarrow> string" where
  "join_comma [] = []"
| "join_comma [x] = x"
| "join_comma (x # y # ys) = x @ '','' @ join_comma (y # ys)"

text \<open>
  \<open>ToString\<close>, which a template literal applies to an interpolated value. An array is
  the join of its elements by commas, with \<open>null\<close> elements shown as the empty string.
  A plain object is converted by the inherited \<open>toString\<close>, unless it has an own
  property of that name: a decoded JSON value is never callable, the \<open>valueOf\<close> that
  is tried next is not callable either or returns the object, and the conversion throws
  a \<open>TypeError\<close> (\<open>None\<close>).
\<close>

fun to_string :: "json \<Rightarrow> string option" where
  "to_string JNull = Some ''null''"
| "to_string (JBool b) = Some (if b then ''true'' else ''false'')"
| "to_string (JNum n) = Some (number_to_string n)"
| "to_string (JStr s) = Some s"
| "to_string (JArr xs) =
     map_option join_comma (those (map (\<lambda>x. if x = JNull then Some [] else to_string x) xs))"
| "to_string (JObj kvs) =
     (if ''toString'' \<in> fst ` set kvs then None else Some ''[object Object]'')"

text \<open>\<open>Math.round(d / k)\<close> for integers \<open>d\<close> and \<open>k > 0\<close>: a half rounds up.\<close>

definition round_div :: "int \<Rightarrow> int \<Rightarrow> int" where
  "round_div d k = (2 * d + k) div (2 * k)"

definition apostrophe :: string where
  "apostrophe = [CHR 0x27]"

text \<open>The destructuring default \<open>sessionId = "default"\<close> applies to \<open>undefined\<close> only.\<close>

fun default_sessionId :: "string option \<Rightarrow> string" where
  "default_sessionId None = ''default''"
| "default_sessionId (Some s) = s"

text \<open>
  A \<open>Map<string, V>\<close> is an association list in insertion order with distinct keys:
  \<open>get\<close> is \<open>map_of\<close>, \<open>set\<close> is \<open>AList.update\<close> (it replaces the value of a
  present key in place and appends an absent one), \<open>size\<close> is \<open>length\<close>.
\<close>

type_synonym 'v store = "(string \<times> 'v) list"

definition wf_store :: "'v store \<Rightarrow> bool" where
  "wf_store m = distinct (map fst m)"

section \<open>The reasoning tool-set (sequential-thinking)\<close>

record ThinkingStep =
  thoughtNumber :: "int option"
  thought :: "string option"
  timestamp :: time
  isRevision :: bool
  revisesThought :: "int option"
  branchFromThought :: "int option"
  branchId :: "string option"

record ThinkingSession =
  sessionId :: string
  totalThoughts :: js_number
  currentThought :: "int option"
  steps :: "ThinkingStep list"
  branches :: "ThinkingStep list store"
  created :: time
  lastUpdated :: time
  isCompleted :: bool

record thinking_args =
  arg_thought :: "string option"
  arg_nextThoughtNeeded :: "bool option"
  arg_thoughtNumber :: "int option"
  arg_totalThoughts :: "int option"
  arg_sessionId :: "string option"
  arg_isRevision :: "bool option"
  arg_revisesThought :: "int option"
  arg_branchFromThought :: "int option"
  arg_branchId :: "string option"

definition SESSION_TIMEOUT :: int where
  "SESSION_TIMEOUT = 3600000"

text \<open>\<open>cleanupOldSessions\<close>: deleting from a \<open>Map\<close> while iterating over it is
  well defined in JavaScript, and the loop removes exactly the entries that are older
  than the cutoff.\<close>

definition cleanupOldSessions :: "time \<Rightarrow> ThinkingSession store \<Rightarrow> ThinkingSession store" where
  "cleanupOldSessions now sessions =
     (let cutoffTime = now - SESSION_TIMEOUT
      in filter (\<lambda>(sid, session). \<not> lastUpdated session < cutoffTime) sessions)"

text \<open>Lines 54 to 67: get or create the session.\<close>

definition get_or_create_thinking :: "time \<Rightarrow> string \<Rightarrow> ThinkingSession store \<Rightarrow> ThinkingSession" where
  "get_or_create_thinking now sid sessions =
     (case map_of sessions sid of
        Some session \<Rightarrow> session
      | None \<Rightarrow> \<lparr>sessionId = sid, totalThoughts = Num 0, currentThought = Some 0, steps = [],
                 branches = [], created = now, lastUpdated = now, isCompleted = False\<rparr>)"

text \<open>Lines 70 to 78: the step record.\<close>

definition make_step :: "time \<Rightarrow> thinking_args \<Rightarrow> ThinkingStep" where
  "make_step now a =
     \<lparr>thoughtNumber = arg_thoughtNumber a, thought = arg_thought a, timestamp = now,
      isRevision = (case arg_isRevision a of None \<Rightarrow> False | Some b \<Rightarrow> b),
      revisesThought = arg_revisesThought a,
      branchFromThought = arg_branchFromThought a, branchId = arg_branchId a\<rparr>"

text \<open>Line 81: the guard \<open>branchId && branchFromThought\<close>.\<close>

definition is_branch_step :: "thinking_args \<Rightarrow> bool" where
  "is_branch_step a \<longleftrightarrow> truthy_string (arg_branchId a) \<and> truthy_number (arg_branchFromThought a)"

text \<open>Lines 81 to 87: \<open>branches.get(branchId) || []\<close> is the stored array when the key
  is present (an array is truthy, also an empty one).\<close>

definition add_step :: "thinking_args \<Rightarrow> ThinkingStep \<Rightarrow> ThinkingSession \<Rightarrow> ThinkingSession" where
  "add_step a step session =
     (case (is_branch_step a, arg_branchId a) of
        (True, Some b) \<Rightarrow>
          (let branchSteps = (case map_of (branches session) b of Some xs \<Rightarrow> xs | None \<Rightarrow> [])
           in session\<lparr>branches := AList.update b (branchSteps @ [step]) (branches session)\<rparr>)
      | _ \<Rightarrow> session\<lparr>steps := steps session @ [step]\<rparr>)"

text \<open>Lines 90 to 93: the session metadata.\<close>

definition update_metadata :: "time \<Rightarrow> thinking_args \<Rightarrow> ThinkingSession \<Rightarrow> ThinkingSession" where
  "update_metadata now a session =
     session\<lparr>currentThought := arg_thoughtNumber a,
             totalThoughts := math_max (totalThoughts session) (to_number (arg_totalThoughts a)),
             lastUpdated := now,
             isCompleted := \<not> truthy_bool (arg_nextThoughtNeeded a)\<rparr>"

text \<open>
  Double-precision arithmetic. The quotient \<open>thoughtNumber / totalThoughts\<close> and its
  product with 100 are IEEE 754 operations: each returns the exact result rounded to 53
  significant bits, to nearest, ties to even. A finite double is given here as a
  fraction with a positive denominator; \<open>to_double n d\<close> is the double nearest to
  \<open>n / d\<close> for \<open>d \<noteq> 0\<close>. The exponent range is not modelled: it is not reached by
  integers that a double holds exactly, nor by their quotients and the products of
  these with 100.
\<close>

text \<open>The number of binary digits of a positive integer.\<close>

function bit_length :: "int \<Rightarrow> int" where
  "bit_length n = (if n \<le> 0 then 0 else 1 + bit_length (n div 2))"
  by pat_completeness auto

termination bit_length
  by (relation "measure nat") auto

declare bit_length.simps [simp del]

definition round_half_even :: "int \<Rightarrow> int \<Rightarrow> int" where
  "round_half_even n d =
     (let q = n div d; r = n mod d
      in if 2 * r < d then q else if d < 2 * r then q + 1 else if even q then q else q + 1)"

text \<open>The fraction \<open>n / d\<close> times \<open>2 ^ k\<close>, for an integer \<open>k\<close>.\<close>

definition scaled :: "int \<Rightarrow> int \<Rightarrow> int \<Rightarrow> int \<times> int" where
  "scaled n d k = (if 0 \<le> k then (n * 2 ^ nat k, d) else (n, d * 2 ^ nat (- k)))"

text \<open>For positive \<open>n\<close> and \<open>d\<close>: the power of two \<open>k\<close> that brings \<open>n / d\<close> into
  the range from \<open>2 ^ 52\<close> to \<open>2 ^ 53\<close>, the scaled fraction rounded to an integer, and
  the result scaled back.\<close>

definition to_double_pos :: "int \<Rightarrow> int \<Rightarrow> int \<times> int" where
  "to_double_pos n d =
     (let k1 = 52 - (bit_length n - bit_length d);
          k = (if fst (scaled n d k1) < snd (scaled n d k1) * 2 ^ 52 then k1 + 1 else k1);
          m = round_half_even (fst (scaled n d k)) (snd (scaled n d k))
      in if 0 \<le> k then (m, 2 ^ nat k) else (m * 2 ^ nat (- k), 1))"

definition to_double :: "int \<Rightarrow> int \<Rightarrow> int \<times> int" where
  "to_double n d =
     (let n' = (if d < 0 then - n else n); d' = \<bar>d\<bar>
      in if n' = 0 then (0, 1)
         else if 0 < n' then to_double_pos n' d'
         else (- fst (to_double_pos (- n') d'), snd (to_double_pos (- n') d')))"

text \<open>
  \<open>Math.round((thoughtNumber / totalThoughts) * 100)\<close> as it is serialised:
  \<open>NaN\<close> (an argument is missing, or \<open>0 / 0\<close>) and the infinities of a division by
  zero become JSON \<open>null\<close> (\<open>None\<close>). \<open>Math.round\<close> returns the nearest integer
  and rounds a half towards plus infinity.
\<close>

definition rounded_percentage :: "int \<Rightarrow> int \<Rightarrow> int" where
  "rounded_percentage n t =
     (let quotient = to_double n t;
          product = to_double (fst quotient * 100) (snd quotient)
      in (2 * fst product + snd product) div (2 * snd product))"

fun progressPercentage :: "int option \<Rightarrow> int option \<Rightarrow> int option" where
  "progressPercentage (Some n) (Some t) = (if t = 0 then None else Some (rounded_percentage n t))"
| "progressPercentage _ _ = None"

record session_summary =
  totalSteps :: nat
  branchCount :: nat
  summary_created :: time
  summary_lastUpdated :: time

record thought_info =
  info_number :: "int option"
  info_content :: string
  info_isRevision :: bool
  info_revisesThought :: "int option"
  info_branchInfo :: "(string \<times> int option) option"

record thinking_payload =
  out_status :: string
  out_sessionId :: string
  out_currentThought :: "int option"
  out_totalThoughts :: "int option"
  out_progressPercentage :: "int option"
  out_isCompleted :: bool
  out_sessionSummary :: session_summary
  out_nextAction :: string
  out_thought :: thought_info

text \<open>Lines 102 to 132: the payload that is serialised into the response text.\<close>

definition thinking_result :: "thinking_args \<Rightarrow> string \<Rightarrow> string \<Rightarrow> ThinkingSession \<Rightarrow> thinking_payload" where
  "thinking_result a sid content session =
     \<lparr>out_status = ''success'',
      out_sessionId = sid,
      out_currentThought = arg_thoughtNumber a,
      out_totalThoughts = arg_totalThoughts a,
      out_progressPercentage = progressPercentage (arg_thoughtNumber a) (arg_totalThoughts a),
      out_isCompleted = (\<not> truthy_bool (arg_nextThoughtNeeded a)),
      out_sessionSummary =
        \<lparr>totalSteps = length (steps session), branchCount = length (branches session),
         summary_created = created session, summary_lastUpdated = lastUpdated session\<rparr>,
      out_nextAction =
        (if truthy_bool (arg_nextThoughtNeeded a) then ''Continue with next thinking step''
         else ''Thinking process completed''),
      out_thought =
        \<lparr>info_number = arg_thoughtNumber a, info_content = content,
         info_isRevision = (case arg_isRevision a of None \<Rightarrow> False | Some b \<Rightarrow> b),
         info_revisesThought = arg_revisesThought a,
         info_branchInfo =
           (case arg_branchId a of
              Some b \<Rightarrow> if b \<noteq> [] then Some (b, arg_branchFromThought a) else None
            | None \<Rightarrow> None)\<rparr>\<rparr>"

text \<open>
  \<open>handleSequentialThinking\<close>. The session object is shared with the \<open>Map\<close>, so the
  writes of lines 81 to 93 are writes to the store. The first statement that can throw
  is the log line 99, \<open>thought.substring(0, 100)\<close>, which is a \<open>TypeError\<close> when
  \<open>thought\<close> is \<open>undefined\<close>; by then the store has been written and swept.
\<close>

definition handleSequentialThinking ::
  "time \<Rightarrow> thinking_args \<Rightarrow> ThinkingSession store \<Rightarrow> (exn + thinking_payload) \<times> ThinkingSession store" where
  "handleSequentialThinking now a sessions =
     (let sid = default_sessionId (arg_sessionId a);
          session = get_or_create_thinking now sid sessions;
          step = make_step now a;
          session' = update_metadata now a (add_step a step session);
          sessions' = cleanupOldSessions now (AList.update sid session' sessions)
      in case arg_thought a of
           None \<Rightarrow>
             (Inl (TypeError ''Cannot read properties of undefined (reading 'substring')''),
              sessions')
         | Some content \<Rightarrow> (Inr (thinking_result a sid content session'), sessions'))"

text \<open>A sequence of calls, each at its own instant, threading the store.\<close>

fun run_thinking :: "(time \<times> thinking_args) list \<Rightarrow> ThinkingSession store \<Rightarrow> ThinkingSession store" where
  "run_thinking [] sessions = sessions"
| "run_thinking ((now, a) # calls) sessions =
     run_thinking calls (snd (handleSequentialThinking now a sessions))"

text \<open>Observations of one reasoning session in the store; for an absent session they
  show what the handler would start from.\<close>

definition session_steps :: "ThinkingSession store \<Rightarrow> string \<Rightarrow> ThinkingStep list" where
  "session_steps sessions sid = (case map_of sessions sid of None \<Rightarrow> [] | Some s \<Rightarrow> steps s)"


definition stored_total :: "ThinkingSession store \<Rightarrow> string \<Rightarrow> js_number" where
  "stored_total sessions sid =
     (case map_of sessions sid of None \<Rightarrow> Num 0 | Some s \<Rightarrow> totalThoughts s)"

definition on_session :: "string \<Rightarrow> (time \<times> thinking_args) list \<Rightarrow> bool" where
  "on_session sid calls = list_all (\<lambda>(now, a). default_sessionId (arg_sessionId a) = sid) calls"

text \<open>The writes of one call to the session it names (lines 70 to 93).\<close>

definition thinking_step :: "time \<Rightarrow> thinking_args \<Rightarrow> ThinkingSession \<Rightarrow> ThinkingSession" where
  "thinking_step now a session = update_metadata now a (add_step a (make_step now a) session)"

text \<open>Inputs of the scenarios: a linear step of session \<open>s1\<close>, and a step of the default
  session that may name a branch.\<close>

definition scenario_step :: "int \<Rightarrow> int \<Rightarrow> bool \<Rightarrow> string \<Rightarrow> thinking_args" where
  "scenario_step n t nxt content =
     \<lparr>arg_thought = Some content, arg_nextThoughtNeeded = Some nxt, arg_thoughtNumber = Some n,
      arg_totalThoughts = Some t, arg_sessionId = Some ''s1'', arg_isRevision = None,
      arg_revisesThought = None, arg_branchFromThought = None, arg_branchId = None\<rparr>"

definition branch_args :: "string option \<Rightarrow> int option \<Rightarrow> string option \<Rightarrow> thinking_args" where
  "branch_args b origin content =
     \<lparr>arg_thought = content, arg_nextThoughtNeeded = Some True, arg_thoughtNumber = Some 2,
      arg_totalThoughts = Some 3, arg_sessionId = None, arg_isRevision = None,
      arg_revisesThought = None, arg_branchFromThought = origin, arg_branchId = b\<rparr>"

section \<open>The automation tool-set (playwright)\<close>

record BrowserSession =
  bs_sessionId :: string
  bs_created :: time
  bs_lastUsed :: time
  pageUrl :: "string option"
  bs_isActive :: bool

record pw_args =
  pw_url :: "string option"
  pw_selector :: "string option"
  pw_value :: "json option"
  pw_sessionId :: "string option"
  pw_timeout :: "int option"
  pw_fullPage :: "bool option"
  pw_state :: "string option"

text \<open>What a handler reads from outside: the clock, and whether \<open>new URL(url)\<close>
  accepts a string (the URL parser of the platform is not part of the repository).\<close>

record pw_world =
  pw_now :: time
  valid_url :: "string \<Rightarrow> bool"

definition PW_SESSION_TIMEOUT :: int where
  "PW_SESSION_TIMEOUT = 1800000"

definition pw_cleanupOldSessions :: "time \<Rightarrow> BrowserSession store \<Rightarrow> BrowserSession store" where
  "pw_cleanupOldSessions now browserSessions =
     (let cutoffTime = now - PW_SESSION_TIMEOUT
      in filter (\<lambda>(sid, session). \<not> bs_lastUsed session < cutoffTime) browserSessions)"

text \<open>The result objects of the action handlers share most fields; \<open>res_detail\<close> holds
  the field that only one handler has (the truncated value of \<open>fill\<close>, the text of
  \<open>getText\<close>, the state of \<open>waitForElement\<close>, the URL of \<open>navigate\<close>).\<close>

record pw_result =
  res_sessionId :: string
  res_action :: string
  res_selector :: "string option"
  res_detail :: "string option"
  res_timestamp :: time
  res_message :: string
  res_currentUrl :: "string option"

record pw_session_info =
  li_sessionId :: string
  li_created :: time
  li_lastUsed :: time
  li_currentUrl :: "string option"
  li_isActive :: bool
  li_ageMinutes :: int

datatype pw_payload =
    ActionResult pw_result
  | SessionList nat nat "pw_session_info list"

definition pw_not_found :: "string \<Rightarrow> exn" where
  "pw_not_found sid =
     Error (''Browser session '' @ apostrophe @ sid @ apostrophe @
            '' not found. Please navigate to a page first.'')"

definition navigateHandler ::
  "pw_world \<Rightarrow> pw_args \<Rightarrow> BrowserSession store \<Rightarrow> (exn + pw_payload) \<times> BrowserSession store" where
  "navigateHandler w a browserSessions =
     (let now = pw_now w;
          sessions1 = pw_cleanupOldSessions now browserSessions;
          sid = default_sessionId (pw_sessionId a)
      in case present (pw_url a) of
           None \<Rightarrow> (Inl (Error ''URL is required for navigation''), sessions1)
         | Some url \<Rightarrow>
             if \<not> valid_url w url then (Inl (Error ''Invalid URL format provided''), sessions1)
             else
               (let session =
                      (case map_of sessions1 sid of
                         Some s \<Rightarrow> s
                       | None \<Rightarrow> \<lparr>bs_sessionId = sid, bs_created = now, bs_lastUsed = now,
                                  pageUrl = None, bs_isActive = True\<rparr>);
                    session' = session\<lparr>bs_lastUsed := now, pageUrl := Some url\<rparr>
                in (Inr (ActionResult
                      \<lparr>res_sessionId = sid, res_action = ''navigate'', res_selector = None,
                       res_detail = Some url, res_timestamp = now,
                       res_message = ''Successfully navigated to '' @ url,
                       res_currentUrl = Some url\<rparr>),
                    AList.update sid session' sessions1)))"

text \<open>\<open>clickHandler\<close> (lines 79 to 112): the sweep, then the selector check, then the
  lookup, which throws for an unknown session, then the write of \<open>lastUsed\<close>.\<close>

definition clickHandler ::
  "pw_world \<Rightarrow> pw_args \<Rightarrow> BrowserSession store \<Rightarrow> (exn + pw_payload) \<times> BrowserSession store" where
  "clickHandler w a browserSessions =
     (let now = pw_now w;
          sessions1 = pw_cleanupOldSessions now browserSessions;
          sid = default_sessionId (pw_sessionId a)
      in case present (pw_selector a) of
           None \<Rightarrow> (Inl (Error ''CSS selector is required for clicking''), sessions1)
         | Some selector \<Rightarrow>
             (case map_of sessions1 sid of
                None \<Rightarrow> (Inl (pw_not_found sid), sessions1)
              | Some session \<Rightarrow>
                  (Inr (ActionResult
                     \<lparr>res_sessionId = sid, res_action = ''click'', res_selector = Some selector,
                      res_detail = None, res_timestamp = now,
                      res_message = ''Successfully clicked element: '' @ selector,
                      res_currentUrl = pageUrl session\<rparr>),
                   AList.update sid (session\<lparr>bs_lastUsed := now\<rparr>) sessions1)))"

text \<open>\<open>fillHandler\<close> (lines 114 to 150): the sweep, the two argument checks, the
  lookup, the write of \<open>lastUsed\<close> (line 131), and then the result object, in which
  \<open>value.substring(0, 50)\<close> (line 138) is a \<open>TypeError\<close> for every truthy value
  that is not a string: no other JSON value has a callable \<open>substring\<close>.\<close>

definition fillHandler ::
  "pw_world \<Rightarrow> pw_args \<Rightarrow> BrowserSession store \<Rightarrow> (exn + pw_payload) \<times> BrowserSession store" where
  "fillHandler w a browserSessions =
     (let now = pw_now w;
          sessions1 = pw_cleanupOldSessions now browserSessions;
          sid = default_sessionId (pw_sessionId a)
      in case present (pw_selector a) of
           None \<Rightarrow> (Inl (Error ''CSS selector is required for filling''), sessions1)
         | Some selector \<Rightarrow>
             (case present_json (pw_value a) of
                None \<Rightarrow> (Inl (Error ''Value is required for filling''), sessions1)
              | Some v \<Rightarrow>
                  (case map_of sessions1 sid of
                     None \<Rightarrow> (Inl (pw_not_found sid), sessions1)
                   | Some session \<Rightarrow>
                       (let sessions2 = AList.update sid (session\<lparr>bs_lastUsed := now\<rparr>) sessions1
                        in case v of
                             JStr text \<Rightarrow>
                               (Inr (ActionResult
                                  \<lparr>res_sessionId = sid, res_action = ''fill'',
                                   res_selector = Some selector,
                                   res_detail =
                                     Some (take 50 text @ (if length text > 50 then ''...'' else [])),
                                   res_timestamp = now,
                                   res_message = ''Successfully filled element: '' @ selector,
                                   res_currentUrl = pageUrl session\<rparr>),
                                sessions2)
                           | _ \<Rightarrow> (Inl (TypeError ''value.substring is not a function''), sessions2)))))"

definition screenshotHandler ::
  "pw_world \<Rightarrow> pw_args \<Rightarrow> BrowserSession store \<Rightarrow> (exn + pw_payload) \<times> BrowserSession store" where
  "screenshotHandler w a browserSessions =
     (let now = pw_now w;
          sessions1 = pw_cleanupOldSessions now browserSessions;
          sid = default_sessionId (pw_sessionId a)
      in case map_of sessions1 sid of
           None \<Rightarrow> (Inl (pw_not_found sid), sessions1)
         | Some session \<Rightarrow>
             (Inr (ActionResult
                \<lparr>res_sessionId = sid, res_action = ''screenshot'',
                 res_selector = present (pw_selector a), res_detail = None, res_timestamp = now,
                 res_message = ''Screenshot captured successfully'',
                 res_currentUrl = pageUrl session\<rparr>),
              AList.update sid (session\<lparr>bs_lastUsed := now\<rparr>) sessions1))"

definition getTextHandler ::
  "pw_world \<Rightarrow> pw_args \<Rightarrow> BrowserSession store \<Rightarrow> (exn + pw_payload) \<times> BrowserSession store" where
  "getTextHandler w a browserSessions =
     (let now = pw_now w;
          sessions1 = pw_cleanupOldSessions now browserSessions;
          sid = default_sessionId (pw_sessionId a)
      in case map_of sessions1 sid of
           None \<Rightarrow> (Inl (pw_not_found sid), sessions1)
         | Some session \<Rightarrow>
             (Inr (ActionResult
                \<lparr>res_sessionId = sid, res_action = ''getText'',
                 res_selector =
                   (case present (pw_selector a) of None \<Rightarrow> Some ''body'' | Some sel \<Rightarrow> Some sel),
                 res_detail =
                   (case present (pw_selector a) of
                      None \<Rightarrow> Some ''Full page text content would be here''
                    | Some sel \<Rightarrow> Some (''Text content from '' @ sel)),
                 res_timestamp = now, res_message = [],
                 res_currentUrl = pageUrl session\<rparr>),
              AList.update sid (session\<lparr>bs_lastUsed := now\<rparr>) sessions1))"

definition waitForElementHandler ::
  "pw_world \<Rightarrow> pw_args \<Rightarrow> BrowserSession store \<Rightarrow> (exn + pw_payload) \<times> BrowserSession store" where
  "waitForElementHandler w a browserSessions =
     (let now = pw_now w;
          sessions1 = pw_cleanupOldSessions now browserSessions;
          sid = default_sessionId (pw_sessionId a);
          state = (case pw_state a of None \<Rightarrow> ''visible'' | Some st \<Rightarrow> st)
      in case present (pw_selector a) of
           None \<Rightarrow> (Inl (Error ''CSS selector is required for waiting''), sessions1)
         | Some selector \<Rightarrow>
             (case map_of sessions1 sid of
                None \<Rightarrow> (Inl (pw_not_found sid), sessions1)
              | Some session \<Rightarrow>
                  (Inr (ActionResult
                     \<lparr>res_sessionId = sid, res_action = ''waitForElement'',
                      res_selector = Some selector, res_detail = Some state, res_timestamp = now,
                      res_message = ''Element '' @ selector @ '' is now '' @ state,
                      res_currentUrl = pageUrl session\<rparr>),
                   AList.update sid (session\<lparr>bs_lastUsed := now\<rparr>) sessions1)))"

definition pw_session_info_of :: "time \<Rightarrow> BrowserSession \<Rightarrow> pw_session_info" where
  "pw_session_info_of now session =
     \<lparr>li_sessionId = bs_sessionId session, li_created = bs_created session,
      li_lastUsed = bs_lastUsed session, li_currentUrl = pageUrl session,
      li_isActive = bs_isActive session,
      li_ageMinutes = round_div (now - bs_lastUsed session) 60000\<rparr>"

definition listSessionsHandler ::
  "pw_world \<Rightarrow> pw_args \<Rightarrow> BrowserSession store \<Rightarrow> (exn + pw_payload) \<times> BrowserSession store" where
  "listSessionsHandler w a browserSessions =
     (let now = pw_now w;
          sessions1 = pw_cleanupOldSessions now browserSessions;
          sessions = map (\<lambda>(sid, session). pw_session_info_of now session) sessions1
      in (Inr (SessionList (length sessions) (length (filter li_isActive sessions)) sessions),
          sessions1))"

text \<open>\<open>getHealthInfo\<close> sweeps and returns the number of sessions.\<close>

definition pw_getHealthInfo :: "time \<Rightarrow> BrowserSession store \<Rightarrow> nat \<times> BrowserSession store" where
  "pw_getHealthInfo now browserSessions =
     (let sessions1 = pw_cleanupOldSessions now browserSessions in (length sessions1, sessions1))"

section \<open>Credential shape check (shared/auth)\<close>

record AuthResult =
  auth_success :: bool
  auth_error :: "string option"
  auth_apiKey :: "string option"

text \<open>\<open>String.prototype.split\<close> with a one-character separator: one more part than
  there are separators, empty parts included.\<close>

fun split_on :: "char \<Rightarrow> string \<Rightarrow> string list" where
  "split_on c [] = [] # []"
| "split_on c (x # xs) =
     (if x = c then [] # split_on c xs
      else (case split_on c xs of [] \<Rightarrow> [x] # [] | part # parts \<Rightarrow> (x # part) # parts))"

text \<open>\<open>validateOpenAIKey\<close>; the argument is what \<open>request.headers.get('Authorization')\<close>
  returns (\<open>None\<close> for \<open>null\<close>).\<close>

definition validateOpenAIKey :: "string option \<Rightarrow> AuthResult" where
  "validateOpenAIKey authHeader =
     (case present authHeader of
        None \<Rightarrow>
          \<lparr>auth_success = False,
           auth_error = Some ''Missing Authorization header. Required format: Bearer sk-...'',
           auth_apiKey = None\<rparr>
      | Some header \<Rightarrow>
          (let parts = split_on CHR '' '' header
           in if length parts \<noteq> 2 \<or> parts ! 0 \<noteq> ''Bearer'' then
                \<lparr>auth_success = False,
                 auth_error = Some ''Invalid Authorization format. Required format: Bearer sk-...'',
                 auth_apiKey = None\<rparr>
              else
                (let apiKey = parts ! 1
                 in if \<not> prefix ''sk-'' apiKey \<or> length apiKey < 20 then
                      \<lparr>auth_success = False,
                       auth_error = Some ''Invalid OpenAI API key format. Must start with sk- and be at least 20 characters'',
                       auth_apiKey = None\<rparr>
                    else \<lparr>auth_success = True, auth_error = None, auth_apiKey = Some apiKey\<rparr>)))"

text \<open>The shape that the spec names: the prefix and the minimum length.\<close>

definition key_shape_ok :: "string \<Rightarrow> bool" where
  "key_shape_ok k \<longleftrightarrow> prefix ''sk-'' k \<and> 20 \<le> length k"

section \<open>The natural-language automation tool-set (browser-use)\<close>

record ExecutionResult =
  ex_success :: bool
  actionTaken :: string
  ex_timestamp :: time
  ex_message :: string

record ConversationEntry =
  entry_timestamp :: time
  instruction :: json
  action :: string
  entry_result :: ExecutionResult
  entry_success :: bool

record BrowserUseSession =
  us_sessionId :: string
  us_created :: time
  lastUsed :: time
  currentUrl :: "string option"
  isActive :: bool
  apiKey :: string
  conversationHistory :: "ConversationEntry list"

record bu_args =
  bu_instruction :: "json option"
  bu_url :: "string option"
  bu_sessionId :: "string option"
  bu_apiKey :: "string option"
  bu_limit :: "int option"

text \<open>What a handler reads from outside: the clock and the draw
  \<open>Math.floor(Math.random() * mockActions.length)\<close>. The simulated interpreter also
  produces a target, a confidence and a reasoning string for display; the model keeps
  the action it picks, leaves those three fields out of the result, and keeps the
  exceptions that computing them can throw (\<open>interpreterResult\<close> below).\<close>

record bu_world =
  bu_now :: time
  pick :: nat

definition BU_SESSION_TIMEOUT :: int where
  "BU_SESSION_TIMEOUT = 3600000"

definition bu_cleanupOldSessions :: "time \<Rightarrow> BrowserUseSession store \<Rightarrow> BrowserUseSession store" where
  "bu_cleanupOldSessions now browserUseSessions =
     (let cutoffTime = now - BU_SESSION_TIMEOUT
      in filter (\<lambda>(sid, session). \<not> lastUsed session < cutoffTime) browserUseSessions)"

definition mockActions :: "string list" where
  "mockActions = [''navigate_to_url'', ''click_element'', ''fill_input'', ''extract_text'',
                  ''take_screenshot'', ''scroll_page'']"

record natural_result =
  nr_sessionId :: string
  nr_instruction :: json
  nr_action :: string
  nr_execution :: ExecutionResult
  nr_conversationLength :: nat
  nr_sessionAgeMinutes :: int

record navigate_result =
  nv_sessionId :: string
  nv_url :: string
  nv_instruction :: json
  nv_timestamp :: time
  nv_currentUrl :: "string option"

record history_item =
  hi_timestamp :: time
  hi_instruction :: json
  hi_action :: string
  hi_success :: bool

record history_result =
  hr_sessionId :: string
  hr_totalEntries :: nat
  hr_returnedEntries :: nat
  hr_sessionAgeMinutes :: int
  hr_history :: "history_item list"

record bu_session_info =
  si_sessionId :: string
  si_created :: time
  si_lastUsed :: time
  si_currentUrl :: "string option"
  si_isActive :: bool
  si_conversationLength :: nat
  si_ageMinutes :: int
  apiKeyPreview :: string

datatype bu_payload =
    NaturalResult natural_result
  | NavigateResult navigate_result
  | HistoryResult history_result
  | UseSessionList nat nat "bu_session_info list"

text \<open>The three credential checks that \<open>naturalLanguageActionHandler\<close> and
  \<open>browserUseNavigateHandler\<close> share (lines 47 to 55 and 151 to 159): the handler wraps
  the key into the header \<open>Bearer\<close> followed by the key and runs \<open>validateOpenAIKey\<close> on it.\<close>

definition check_apiKey :: "string option \<Rightarrow> exn + string" where
  "check_apiKey k =
     (case present k of
        None \<Rightarrow> Inl (Error ''OpenAI API key is required for browser-use functionality'')
      | Some key \<Rightarrow>
          (let authResult = validateOpenAIKey (Some (''Bearer '' @ key))
           in if \<not> auth_success authResult then
                Inl (Error (''Authentication failed: '' @
                       (case auth_error authResult of None \<Rightarrow> ''undefined'' | Some e \<Rightarrow> e)))
              else Inr key))"

text \<open>\<open>Array.prototype.slice(start)\<close>: a negative start counts from the end.\<close>

definition slice_from :: "int \<Rightarrow> 'a list \<Rightarrow> 'a list" where
  "slice_from start xs =
     (if start < 0 then drop (nat (max (int (length xs) + start) 0)) xs
      else drop (nat (min start (int (length xs)))) xs)"

text \<open>
  Lines 84 to 95, the object \<open>interpreterResult\<close>, for a truthy instruction: what it
  throws, or else the instruction as the template literals show it. The reasoning
  string of line 87 interpolates the instruction. The target of lines 89 to 93 calls
  \<open>instruction.includes\<close> up to four times and, when the third or fourth call
  succeeds, \<open>instruction.match\<close>. A string has both methods. An array has
  \<open>includes\<close>, which tests whether an element is the given string, and no \<open>match\<close>.
  Every other truthy value has no callable \<open>includes\<close>.
\<close>

definition interpreterResult :: "json \<Rightarrow> exn + string" where
  "interpreterResult instr =
     (case to_string instr of
        None \<Rightarrow> Inl (TypeError ''Cannot convert object to primitive value'')
      | Some shown \<Rightarrow>
          (case instr of
             JStr s \<Rightarrow> Inr shown
           | JArr xs \<Rightarrow>
               if JStr ''click'' \<in> set xs then Inr shown
               else if JStr ''fill'' \<in> set xs then Inr shown
               else if JStr ''go to'' \<in> set xs \<or> JStr ''navigate'' \<in> set xs
               then Inl (TypeError ''instruction.match is not a function'')
               else Inr shown
           | JNull \<Rightarrow> Inl (TypeError ''Cannot read properties of null (reading 'includes')'')
           | _ \<Rightarrow> Inl (TypeError ''instruction.includes is not a function'')))"

text \<open>Lines 75 to 115: the action that the simulated interpreter picks, the execution
  result and the history entry built from them; \<open>shown\<close> is the instruction as the
  template literal of line 103 shows it.\<close>

definition make_entry :: "bu_world \<Rightarrow> json \<Rightarrow> string \<Rightarrow> ConversationEntry" where
  "make_entry w instr shown =
     (let chosen = mockActions ! (pick w mod length mockActions);
          executionResult =
            \<lparr>ex_success = True, actionTaken = chosen, ex_timestamp = bu_now w,
             ex_message = ''Successfully executed: '' @ shown\<rparr>
      in \<lparr>entry_timestamp = bu_now w, instruction = instr, action = chosen,
          entry_result = executionResult, entry_success = True\<rparr>)"

text \<open>
  \<open>naturalLanguageActionHandler\<close> (lines 38 to 140): the sweep, the instruction check,
  the credential checks, then the session is looked up or created and stored and its
  \<open>lastUsed\<close> written (lines 58 to 71). The session object is shared with the
  \<open>Map\<close>: when the interpreter object of lines 84 to 95 throws, the store holds the
  session with these writes; otherwise the entry is pushed and the history capped.
\<close>

definition naturalLanguageActionHandler ::
  "bu_world \<Rightarrow> bu_args \<Rightarrow> BrowserUseSession store \<Rightarrow> (exn + bu_payload) \<times> BrowserUseSession store" where
  "naturalLanguageActionHandler w a browserUseSessions =
     (let now = bu_now w;
          sessions1 = bu_cleanupOldSessions now browserUseSessions;
          sid = default_sessionId (bu_sessionId a)
      in case present_json (bu_instruction a) of
           None \<Rightarrow> (Inl (Error ''Natural language instruction is required''), sessions1)
         | Some instr \<Rightarrow>
             (case check_apiKey (bu_apiKey a) of
                Inl e \<Rightarrow> (Inl e, sessions1)
              | Inr key \<Rightarrow>
                  (let session =
                         (case map_of sessions1 sid of
                            Some s \<Rightarrow> s
                          | None \<Rightarrow>
                              \<lparr>us_sessionId = sid, us_created = now, lastUsed = now,
                               currentUrl = None, isActive = True,
                               apiKey = take 10 key @ ''...'', conversationHistory = []\<rparr>)
                   in case interpreterResult instr of
                        Inl e \<Rightarrow> (Inl e, AList.update sid (session\<lparr>lastUsed := now\<rparr>) sessions1)
                      | Inr shown \<Rightarrow>
                          (let conversationEntry = make_entry w instr shown;
                               pushed = conversationHistory session @ [conversationEntry];
                               history =
                                 (if length pushed > 50 then slice_from (- 50) pushed else pushed);
                               session' = session\<lparr>lastUsed := now, conversationHistory := history\<rparr>
                           in (Inr (NaturalResult
                                 \<lparr>nr_sessionId = sid, nr_instruction = instr,
                                  nr_action = action conversationEntry,
                                  nr_execution = entry_result conversationEntry,
                                  nr_conversationLength = length history,
                                  nr_sessionAgeMinutes = round_div (now - us_created session) 60000\<rparr>),
                               AList.update sid session' sessions1)))))"

definition browserUseNavigateHandler ::
  "bu_world \<Rightarrow> bu_args \<Rightarrow> BrowserUseSession store \<Rightarrow> (exn + bu_payload) \<times> BrowserUseSession store" where
  "browserUseNavigateHandler w a browserUseSessions =
     (let now = bu_now w;
          sessions1 = bu_cleanupOldSessions now browserUseSessions;
          sid = default_sessionId (bu_sessionId a)
      in if present (bu_url a) = None \<and> present_json (bu_instruction a) = None then
           (Inl (Error ''Either URL or natural language instruction is required''), sessions1)
         else
           (case check_apiKey (bu_apiKey a) of
              Inl e \<Rightarrow> (Inl e, sessions1)
            | Inr key \<Rightarrow>
                (case map_of sessions1 sid of
                   None \<Rightarrow>
                     (Inl (Error (''Session '' @ apostrophe @ sid @ apostrophe @
                              '' not found. Please start with a natural language action first.'')),
                      sessions1)
                 | Some session \<Rightarrow>
                     (Inr (NavigateResult
                        \<lparr>nv_sessionId = sid,
                         nv_url = (case present (bu_url a) of
                                     None \<Rightarrow> ''URL determined from instruction'' | Some u \<Rightarrow> u),
                         nv_instruction =
                           (case present_json (bu_instruction a) of
                              None \<Rightarrow> JStr (''Navigate to '' @
                                        (case bu_url a of None \<Rightarrow> ''undefined'' | Some u \<Rightarrow> u))
                            | Some i \<Rightarrow> i),
                         nv_timestamp = now, nv_currentUrl = bu_url a\<rparr>),
                      AList.update sid (session\<lparr>lastUsed := now, currentUrl := bu_url a\<rparr>)
                        sessions1))))"

definition getConversationHistoryHandler ::
  "bu_world \<Rightarrow> bu_args \<Rightarrow> BrowserUseSession store \<Rightarrow> (exn + bu_payload) \<times> BrowserUseSession store" where
  "getConversationHistoryHandler w a browserUseSessions =
     (let now = bu_now w;
          sessions1 = bu_cleanupOldSessions now browserUseSessions;
          sid = default_sessionId (bu_sessionId a);
          limit = (case bu_limit a of None \<Rightarrow> 10 | Some l \<Rightarrow> l)
      in case map_of sessions1 sid of
           None \<Rightarrow>
             (Inl (Error (''Session '' @ apostrophe @ sid @ apostrophe @ '' not found'')), sessions1)
         | Some session \<Rightarrow>
             (let history =
                    map (\<lambda>entry. \<lparr>hi_timestamp = entry_timestamp entry,
                                  hi_instruction = instruction entry, hi_action = action entry,
                                  hi_success = entry_success entry\<rparr>)
                      (slice_from (- limit) (conversationHistory session))
              in (Inr (HistoryResult
                    \<lparr>hr_sessionId = sid,
                     hr_totalEntries = length (conversationHistory session),
                     hr_returnedEntries = length history,
                     hr_sessionAgeMinutes = round_div (now - us_created session) 60000,
                     hr_history = history\<rparr>),
                  AList.update sid (session\<lparr>lastUsed := now\<rparr>) sessions1)))"

definition bu_session_info_of :: "time \<Rightarrow> BrowserUseSession \<Rightarrow> bu_session_info" where
  "bu_session_info_of now session =
     \<lparr>si_sessionId = us_sessionId session, si_created = us_created session,
      si_lastUsed = lastUsed session, si_currentUrl = currentUrl session,
      si_isActive = isActive session,
      si_conversationLength = length (conversationHistory session),
      si_ageMinutes = round_div (now - lastUsed session) 60000,
      apiKeyPreview = apiKey session\<rparr>"

definition listBrowserUseSessionsHandler ::
  "bu_world \<Rightarrow> bu_args \<Rightarrow> BrowserUseSession store \<Rightarrow> (exn + bu_payload) \<times> BrowserUseSession store" where
  "listBrowserUseSessionsHandler w a browserUseSessions =
     (let now = bu_now w;
          sessions1 = bu_cleanupOldSessions now browserUseSessions;
          sessions = map (\<lambda>(sid, session). bu_session_info_of now session) sessions1
      in (Inr (UseSessionList (length sessions) (length (filter si_isActive sessions)) sessions),
          sessions1))"

definition bu_getHealthInfo :: "time \<Rightarrow> BrowserUseSession store \<Rightarrow> nat \<times> BrowserUseSession store" where
  "bu_getHealthInfo now browserUseSessions =
     (let sessions1 = bu_cleanupOldSessions now browserUseSessions in (length sessions1, sessions1))"

section \<open>The protocol dispatcher (shared/mcp-protocol)\<close>

text \<open>
  A tool handler reads the outside world \<open>'w\<close> (clock, random draw, URL parser), takes
  the \<open>arguments\<close> object \<open>'a\<close> and the session store \<open>'s\<close> of its module, and
  returns normally with a payload \<open>'r\<close> or throws. The second parameter \<open>env\<close> of
  the source is ignored by every handler. The model covers requests whose
  \<open>params.arguments\<close> is an object.
\<close>

type_synonym ('w, 'a, 's, 'r) ToolHandler = "'w \<Rightarrow> 'a \<Rightarrow> 's \<Rightarrow> (exn + 'r) \<times> 's"

record MCPTool =
  tool_name :: string
  tool_description :: string
  tool_required :: "string list"

record ('w, 'a, 's, 'r) ServerConfig =
  info_name :: string
  info_version :: string
  info_capabilities :: "string list option"
  tools :: "MCPTool list"
  handlers :: "(string \<times> ('w, 'a, 's, 'r) ToolHandler) list"

datatype rpc_id = IdNumber int | IdString string | IdNull

record 'a call_params =
  call_name :: "string option"
  call_arguments :: 'a

record 'a MCPRequest =
  req_id :: rpc_id
  req_method :: string
  req_params :: "'a call_params option"

text \<open>The values that can end up in the \<open>result\<close> field.\<close>

datatype ('a, 'r) js_value =
    InitializeResult string "string list" string string
  | ToolsListResult "MCPTool list"
  | ToolResponse 'r
  | JsString string
  | JsObject 'a
  | HandlersObject

record ('a, 'r) MCPResponse =
  jsonrpc :: string
  id :: rpc_id
  result :: "('a, 'r) js_value option"
  error :: "(int \<times> string) option"

text \<open>
  \<open>config.handlers\<close> is an object literal, so \<open>config.handlers[name]\<close> is an ordinary
  property read: it finds the own properties (the registered tools) and, for any other
  name, the properties that every plain object inherits from \<open>Object.prototype\<close>.
  These are the twelve string-keyed members of \<open>Object.prototype\<close>; each is a function
  or, for \<open>__proto__\<close>, the prototype object itself, so each is truthy.
\<close>

definition object_prototype_keys :: "string list" where
  "object_prototype_keys =
     [''constructor'', ''__defineGetter__'', ''__defineSetter__'', ''hasOwnProperty'',
      ''__lookupGetter__'', ''__lookupSetter__'', ''isPrototypeOf'', ''propertyIsEnumerable'',
      ''toString'', ''valueOf'', ''__proto__'', ''toLocaleString'']"

datatype ('w, 'a, 's, 'r) property =
    OwnProperty "('w, 'a, 's, 'r) ToolHandler"
  | InheritedProperty string
  | UndefinedProperty

definition get_property ::
  "(string \<times> ('w, 'a, 's, 'r) ToolHandler) list \<Rightarrow> string \<Rightarrow> ('w, 'a, 's, 'r) property" where
  "get_property table name =
     (case map_of table name of
        Some h \<Rightarrow> OwnProperty h
      | None \<Rightarrow> if name \<in> set object_prototype_keys then InheritedProperty name
                else UndefinedProperty)"

text \<open>
  The call \<open>config.handlers[name](args, env)\<close> on an inherited member, with the table
  as \<open>this\<close>: \<open>toString\<close> returns the tag string of a plain object, \<open>valueOf\<close>
  returns the table, \<open>constructor\<close> is \<open>Object\<close> and returns its argument as an
  object, none of them can throw; \<open>__proto__\<close> is not callable. The other members
  coerce \<open>args\<close> to a property key or test \<open>env\<close> for callability, and what they
  return or throw is the parameter \<open>builtin\<close>.
\<close>

definition call_inherited ::
  "(string \<Rightarrow> 'a \<Rightarrow> exn + ('a, 'r) js_value) \<Rightarrow> string \<Rightarrow> 'a \<Rightarrow> exn + ('a, 'r) js_value" where
  "call_inherited builtin member args =
     (if member = ''toString'' then Inr (JsString ''[object Object]'')
      else if member = ''valueOf'' then Inr HandlersObject
      else if member = ''constructor'' then Inr (JsObject args)
      else if member = ''__proto__'' then Inl (TypeError ''config.handlers[name] is not a function'')
      else builtin member args)"

text \<open>A property key that is \<open>undefined\<close> is the string \<open>undefined\<close>.\<close>

fun property_key :: "string option \<Rightarrow> string" where
  "property_key None = ''undefined''"
| "property_key (Some s) = s"

text \<open>The body of \<open>case "tools/call"\<close> (lines 153 to 166), before the \<open>catch\<close>.\<close>

definition call_tool ::
  "(string \<Rightarrow> 'a \<Rightarrow> exn + ('a, 'r) js_value) \<Rightarrow> ('w, 'a, 's, 'r) ServerConfig \<Rightarrow> 'w \<Rightarrow>
   'a call_params option \<Rightarrow> 's \<Rightarrow> (exn + ('a, 'r) js_value) \<times> 's" where
  "call_tool builtin config w params st =
     (case params of
        None \<Rightarrow>
          (Inl (TypeError ''Cannot destructure property 'name' of 'params' as it is undefined.''),
           st)
      | Some p \<Rightarrow>
          (let name = property_key (call_name p); args = call_arguments p
           in case get_property (handlers config) name of
                UndefinedProperty \<Rightarrow> (Inl (Error (''Unknown tool: '' @ name)), st)
              | OwnProperty h \<Rightarrow>
                  (case h w args st of
                     (Inl e, st') \<Rightarrow> (Inl e, st')
                   | (Inr r, st') \<Rightarrow> (Inr (ToolResponse r), st'))
              | InheritedProperty member \<Rightarrow> (call_inherited builtin member args, st)))"

definition result_envelope :: "rpc_id \<Rightarrow> ('a, 'r) js_value \<Rightarrow> ('a, 'r) MCPResponse" where
  "result_envelope i v = \<lparr>jsonrpc = ''2.0'', id = i, result = Some v, error = None\<rparr>"

definition error_envelope :: "rpc_id \<Rightarrow> exn \<Rightarrow> ('a, 'r) MCPResponse" where
  "error_envelope i e = \<lparr>jsonrpc = ''2.0'', id = i, result = None, error = Some (- 32000, message e)\<rparr>"

text \<open>\<open>handleMCPRequest\<close>: the \<open>switch\<close> on the method inside \<open>try\<close>, and the
  \<open>catch\<close> that turns whatever was thrown into an error envelope.\<close>

definition handleMCPRequest ::
  "(string \<Rightarrow> 'a \<Rightarrow> exn + ('a, 'r) js_value) \<Rightarrow> ('w, 'a, 's, 'r) ServerConfig \<Rightarrow> 'w \<Rightarrow>
   'a MCPRequest \<Rightarrow> 's \<Rightarrow> ('a, 'r) MCPResponse \<times> 's" where
  "handleMCPRequest builtin config w request st =
     (let method = req_method request; i = req_id request
      in if method = ''initialize'' then
           (result_envelope i
              (InitializeResult ''2024-11-05''
                 (case info_capabilities config of None \<Rightarrow> [''tools''] | Some c \<Rightarrow> c)
                 (info_name config) (info_version config)),
            st)
         else if method = ''tools/list'' then (result_envelope i (ToolsListResult (tools config)), st)
         else if method = ''tools/call'' then
           (case call_tool builtin config w (req_params request) st of
              (Inl e, st') \<Rightarrow> (error_envelope i e, st')
            | (Inr v, st') \<Rightarrow> (result_envelope i v, st'))
         else (error_envelope i (Error (''Unknown method: '' @ method)), st))"

section \<open>The three server configurations\<close>

definition sequentialThinkingConfig ::
  "(time, thinking_args, ThinkingSession store, thinking_payload) ServerConfig" where
  "sequentialThinkingConfig =
     \<lparr>info_name = ''Sequential Thinking MCP Server'', info_version = ''1.0.0'',
      info_capabilities = Some [''tools''],
      tools =
        [\<lparr>tool_name = ''sequential_thinking'',
          tool_description =
            ''Process sequential thinking steps for complex problem-solving and analysis'',
          tool_required = [''thought'', ''nextThoughtNeeded'', ''thoughtNumber'', ''totalThoughts'']\<rparr>],
      handlers = [(''sequential_thinking'', handleSequentialThinking)]\<rparr>"

definition playwrightConfig :: "(pw_world, pw_args, BrowserSession store, pw_payload) ServerConfig" where
  "playwrightConfig =
     \<lparr>info_name = ''Playwright MCP Server'', info_version = ''1.0.0'',
      info_capabilities = Some [''tools''],
      tools =
        [\<lparr>tool_name = ''playwright_navigate'', tool_description = ''Navigate to a URL in the browser'',
          tool_required = [''url'']\<rparr>,
         \<lparr>tool_name = ''playwright_click'', tool_description = ''Click an element on the page'',
          tool_required = [''selector'']\<rparr>,
         \<lparr>tool_name = ''playwright_fill'', tool_description = ''Fill an input field with text'',
          tool_required = [''selector'', ''value'']\<rparr>,
         \<lparr>tool_name = ''playwright_screenshot'',
          tool_description = ''Take a screenshot of the current page or element'',
          tool_required = []\<rparr>,
         \<lparr>tool_name = ''playwright_get_text'',
          tool_description = ''Extract text content from the page or specific element'',
          tool_required = []\<rparr>,
         \<lparr>tool_name = ''playwright_wait_for_element'',
          tool_description = ''Wait for an element to appear or reach a specific state'',
          tool_required = [''selector'']\<rparr>,
         \<lparr>tool_name = ''playwright_list_sessions'',
          tool_description = ''List all active browser sessions'', tool_required = []\<rparr>],
      handlers =
        [(''playwright_navigate'', navigateHandler),
         (''playwright_click'', clickHandler),
         (''playwright_fill'', fillHandler),
         (''playwright_screenshot'', screenshotHandler),
         (''playwright_get_text'', getTextHandler),
         (''playwright_wait_for_element'', waitForElementHandler),
         (''playwright_list_sessions'', listSessionsHandler)]\<rparr>"

definition browserUseConfig ::
  "(bu_world, bu_args, BrowserUseSession store, bu_payload) ServerConfig" where
  "browserUseConfig =
     \<lparr>info_name = ''Browser-use MCP Server'', info_version = ''1.0.0'',
      info_capabilities = Some [''tools'', ''authentication''],
      tools =
        [\<lparr>tool_name = ''browseruse_natural_action'',
          tool_description =
            ''Perform browser actions using natural language instructions with OpenAI interpretation'',
          tool_required = [''instruction'', ''apiKey'']\<rparr>,
         \<lparr>tool_name = ''browseruse_navigate'',
          tool_description = ''Navigate to URL with optional natural language context'',
          tool_required = [''apiKey'']\<rparr>,
         \<lparr>tool_name = ''browseruse_conversation_history'',
          tool_description = ''Get conversation history for a browser-use session'',
          tool_required = []\<rparr>,
         \<lparr>tool_name = ''browseruse_list_sessions'',
          tool_description = ''List all active browser-use sessions'', tool_required = []\<rparr>],
      handlers =
        [(''browseruse_natural_action'', naturalLanguageActionHandler),
         (''browseruse_navigate'', browserUseNavigateHandler),
         (''browseruse_conversation_history'', getConversationHistoryHandler),
         (''browseruse_list_sessions'', listBrowserUseSessionsHandler)]\<rparr>"

section \<open>Sequences of browser-use calls\<close>

text \<open>A sequence of \<open>browseruse_natural_action\<close> calls; the flag says whether every
  call returned normally.\<close>

fun run_natural ::
  "(bu_world \<times> bu_args) list \<Rightarrow> BrowserUseSession store \<Rightarrow> bool \<times> BrowserUseSession store" where
  "run_natural [] st = (True, st)"
| "run_natural ((w, a) # calls) st =
     (case naturalLanguageActionHandler w a st of
        (Inl e, st') \<Rightarrow> (False, snd (run_natural calls st'))
      | (Inr r, st') \<Rightarrow> run_natural calls st')"

text \<open>The entry that a call submits, and the stored history of a session.\<close>

definition submitted_entry :: "bu_world \<times> bu_args \<Rightarrow> ConversationEntry" where
  "submitted_entry c =
     (let instr = (case bu_instruction (snd c) of None \<Rightarrow> JNull | Some i \<Rightarrow> i)
      in make_entry (fst c) instr (case to_string instr of None \<Rightarrow> [] | Some shown \<Rightarrow> shown))"

definition session_history :: "BrowserUseSession store \<Rightarrow> string \<Rightarrow> ConversationEntry list" where
  "session_history st sid =
     (case map_of st sid of None \<Rightarrow> [] | Some s \<Rightarrow> conversationHistory s)"

definition names_session :: "string \<Rightarrow> (bu_world \<times> bu_args) list \<Rightarrow> bool" where
  "names_session sid calls = list_all (\<lambda>(w, a). default_sessionId (bu_sessionId a) = sid) calls"

text \<open>No two consecutive calls are further apart than the timeout, so the session is not
  swept in between.\<close>

fun within_timeout :: "time list \<Rightarrow> bool" where
  "within_timeout (t # t' # ts) = (t' - t \<le> BU_SESSION_TIMEOUT \<and> within_timeout (t' # ts))"
| "within_timeout _ = True"

text \<open>Every way in which the module changes its store: a tool called through the
  handler table of the configuration, or the health endpoint.\<close>

datatype bu_call = CallTool string bu_world bu_args | HealthInfo time

fun bu_exec :: "bu_call \<Rightarrow> BrowserUseSession store \<Rightarrow> BrowserUseSession store" where
  "bu_exec (CallTool name w a) st =
     (case map_of (handlers browserUseConfig) name of
        None \<Rightarrow> st
      | Some h \<Rightarrow> snd (h w a st))"
| "bu_exec (HealthInfo now) st = snd (bu_getHealthInfo now st)"

definition bu_run :: "bu_call list \<Rightarrow> BrowserUseSession store \<Rightarrow> BrowserUseSession store" where
  "bu_run calls st = foldl (\<lambda>s c. bu_exec c s) st calls"

text \<open>The credentials that passed the check in a \<open>browseruse_natural_action\<close> call
  naming session \<open>sid\<close>.\<close>

fun supplied_key :: "string \<Rightarrow> bu_call \<Rightarrow> string option" where
  "supplied_key sid (CallTool name w a) =
     (if name = ''browseruse_natural_action'' \<and> default_sessionId (bu_sessionId a) = sid
      then (case check_apiKey (bu_apiKey a) of Inl e \<Rightarrow> None | Inr key \<Rightarrow> Some key)
      else None)"
| "supplied_key sid (HealthInfo now) = None"

definition supplied_keys :: "bu_call list \<Rightarrow> string \<Rightarrow> string list" where
  "supplied_keys calls sid = List.map_filter (supplied_key sid) calls"

section \<open>Expiry predicates and concrete inputs\<close>

text \<open>A session is expired at an instant when it has been idle for longer than the
  timeout of its tool-set; this is the test of the three \<open>cleanupOldSessions\<close>.\<close>

definition pw_expired :: "time \<Rightarrow> BrowserSession \<Rightarrow> bool" where
  "pw_expired now s \<longleftrightarrow> PW_SESSION_TIMEOUT < now - bs_lastUsed s"

definition bu_expired :: "time \<Rightarrow> BrowserUseSession \<Rightarrow> bool" where
  "bu_expired now s \<longleftrightarrow> BU_SESSION_TIMEOUT < now - lastUsed s"

definition thinking_expired :: "time \<Rightarrow> ThinkingSession \<Rightarrow> bool" where
  "thinking_expired now s \<longleftrightarrow> SESSION_TIMEOUT < now - lastUpdated s"

text \<open>The \<open>totalThoughts\<close> arguments, as \<open>Math.max\<close> reads them, of the calls of a
  sequence that name session \<open>sid\<close>.\<close>

definition totals_seen :: "string \<Rightarrow> (time \<times> thinking_args) list \<Rightarrow> js_number list" where
  "totals_seen sid calls =
     map (\<lambda>(now, a). to_number (arg_totalThoughts a))
       (filter (\<lambda>(now, a). default_sessionId (arg_sessionId a) = sid) calls)"

text \<open>Session \<open>sid\<close> is not removed during a sequence of calls: whenever a call names
  another session, the store does not hold \<open>sid\<close> or holds it unexpired at the instant
  of the call. (A call that names \<open>sid\<close> refreshes it before the sweep.)\<close>

fun not_swept :: "string \<Rightarrow> (time \<times> thinking_args) list \<Rightarrow> ThinkingSession store \<Rightarrow> bool" where
  "not_swept sid [] sessions = True"
| "not_swept sid ((now, a) # calls) sessions =
     ((default_sessionId (arg_sessionId a) = sid \<or>
       (case map_of sessions sid of None \<Rightarrow> True | Some s \<Rightarrow> \<not> thinking_expired now s)) \<and>
      not_swept sid calls (snd (handleSequentialThinking now a sessions)))"

text \<open>A call on session \<open>sid\<close> that carries the given \<open>totalThoughts\<close>, or none.\<close>

definition total_call :: "string \<Rightarrow> int option \<Rightarrow> thinking_args" where
  "total_call sid t =
     \<lparr>arg_thought = Some ''x'', arg_nextThoughtNeeded = Some True, arg_thoughtNumber = Some 1,
      arg_totalThoughts = t, arg_sessionId = Some sid, arg_isRevision = None,
      arg_revisesThought = None, arg_branchFromThought = None, arg_branchId = None\<rparr>"

text \<open>Inputs and stores used in the concrete evaluations below.\<close>

definition expired_browser_session :: BrowserSession where
  "expired_browser_session =
     \<lparr>bs_sessionId = ''old'', bs_created = 0, bs_lastUsed = 0, pageUrl = None, bs_isActive = True\<rparr>"

text \<open>An argument that the schema declares as a string is a string or left out.\<close>

definition string_or_absent :: "json option \<Rightarrow> bool" where
  "string_or_absent v = (case v of None \<Rightarrow> True | Some (JStr s) \<Rightarrow> True | Some _ \<Rightarrow> False)"

definition open_browser_session :: BrowserSession where
  "open_browser_session =
     \<lparr>bs_sessionId = ''default'', bs_created = 0, bs_lastUsed = 0,
      pageUrl = Some ''https://example.com'', bs_isActive = True\<rparr>"

definition no_pw_args :: pw_args where
  "no_pw_args = \<lparr>pw_url = None, pw_selector = None, pw_value = None, pw_sessionId = None,
                 pw_timeout = None, pw_fullPage = None, pw_state = None\<rparr>"

definition no_bu_args :: bu_args where
  "no_bu_args = \<lparr>bu_instruction = None, bu_url = None, bu_sessionId = None, bu_apiKey = None,
                 bu_limit = None\<rparr>"

definition expired_use_session :: BrowserUseSession where
  "expired_use_session =
     \<lparr>us_sessionId = ''old'', us_created = 0, lastUsed = 0, currentUrl = None, isActive = True,
      apiKey = ''sk-0123456...'', conversationHistory = []\<rparr>"

definition expired_thinking_session :: ThinkingSession where
  "expired_thinking_session =
     \<lparr>sessionId = ''s1'', totalThoughts = Num 3, currentThought = Some 1, steps = [],
      branches = [], created = 0, lastUpdated = 0, isCompleted = False\<rparr>"

definition good_key :: string where
  "good_key = ''sk-0123456789abcdefghij''"

text \<open>The last fifty elements of a list.\<close>

definition cap50 :: "'a list \<Rightarrow> 'a list" where
  "cap50 xs = drop (length xs - 50) xs"

text \<open>The arguments with which \<open>browseruse_natural_action\<close> returns normally.\<close>

definition natural_ok :: "bu_args \<Rightarrow> bool" where
  "natural_ok a \<longleftrightarrow>
     (case present_json (bu_instruction a) of
        None \<Rightarrow> False
      | Some instr \<Rightarrow> \<not> isl (check_apiKey (bu_apiKey a)) \<and> \<not> isl (interpreterResult instr))"

text \<open>Sixty calls on the default session, one millisecond apart, each with its own
  instruction.\<close>

definition sixty_calls :: "(bu_world \<times> bu_args) list" where
  "sixty_calls =
     map (\<lambda>n. (\<lparr>bu_now = int n, pick = n\<rparr>,
               no_bu_args\<lparr>bu_instruction := Some (JStr (''step '' @ replicate n CHR ''i'')),
                          bu_apiKey := Some good_key\<rparr>))
       [0..<60]"

text \<open>The stored \<open>apiKey\<close> of a store entry is the truncation of a credential that
  was supplied for its session, and differs from that credential.\<close>

definition key_preview_ok :: "bu_call list \<Rightarrow> string \<times> BrowserUseSession \<Rightarrow> bool" where
  "key_preview_ok calls entry =
     list_ex (\<lambda>k. apiKey (snd entry) = take 10 k @ ''...'' \<and> prefix ''sk-'' k \<and> 20 \<le> length k \<and>
                  length (apiKey (snd entry)) = 13 \<and> apiKey (snd entry) \<noteq> k)
       (supplied_keys calls (fst entry))"

section \<open>The session store\<close>

lemma map_of_filter_update_same:
  "P (k, v) \<Longrightarrow> map_of (filter P (AList.update k v al)) k = Some v"
  by (induction al) auto

lemma map_of_filter_keep:
  "map_of al k = Some v \<Longrightarrow> P (k, v) \<Longrightarrow> map_of (filter P al) k = Some v"
  by (induction al) auto

lemma map_of_filter_absent:
  "map_of al k = None \<Longrightarrow> map_of (filter P al) k = None"
  by (induction al) (auto split: if_splits)

lemma map_of_filter_drop:
  "distinct (map fst al) \<Longrightarrow> map_of al k = Some v \<Longrightarrow> \<not> P (k, v) \<Longrightarrow> map_of (filter P al) k = None"
proof (induction al)
  case Nil
  then show ?case by simp
next
  case (Cons p al)
  show ?case
  proof (cases "fst p = k")
    case True
    with Cons.prems have "p = (k, v)" and "k \<notin> fst ` set al" by (auto simp: prod_eq_iff)
    then have "map_of (filter P al) k = None"
      by (simp add: map_of_eq_None_iff image_iff)
    with \<open>p = (k, v)\<close> Cons.prems(3) show ?thesis by simp
  next
    case False
    with Cons show ?thesis by (cases p) auto
  qed
qed

lemma filter_delete_expired:
  "distinct (map fst al) \<Longrightarrow> map_of al k = Some v \<Longrightarrow> \<not> P (k, v) \<Longrightarrow>
   filter P (AList.delete k al) = filter P al"
proof (induction al)
  case Nil
  then show ?case by simp
next
  case (Cons p al)
  show ?case
  proof (cases "fst p = k")
    case True
    with Cons.prems have p: "p = (k, v)" and "k \<notin> fst ` set al" by (auto simp: prod_eq_iff)
    then have "AList.delete k al = al" by simp
    with p Cons.prems(3) show ?thesis by simp
  next
    case False
    with Cons show ?thesis by (cases p) auto
  qed
qed

lemma set_update_subset: "set (AList.update k v al) \<subseteq> insert (k, v) (set al)"
  by (induction al) auto

lemma keys_update_present:
  "map_of al k = Some v \<Longrightarrow> fst ` set (AList.update k v' al) = fst ` set al"
  by (auto simp: AList.dom_update dest: map_of_SomeD intro: rev_image_eqI)

section \<open>The reasoning tool-set\<close>

text \<open>Three of three is 100 percent: the quotient 1 and the product 100 are exact.\<close>

lemma progress_complete: "progressPercentage (Some 3) (Some 3) = Some 100"
  by code_simp

text \<open>The double nearest to 23 / 40 lies below 0.575, and so does its product with 100
  below 57.5.\<close>

lemma progress_rounds_the_double: "progressPercentage (Some 23) (Some 40) = Some 57"
  by code_simp

lemma lastUpdated_thinking_step: "lastUpdated (thinking_step now a s) = now"
  by (simp add: thinking_step_def update_metadata_def)

lemma handle_store:
  "snd (handleSequentialThinking now a sessions) =
     cleanupOldSessions now
       (AList.update (default_sessionId (arg_sessionId a))
          (thinking_step now a (get_or_create_thinking now (default_sessionId (arg_sessionId a)) sessions))
          sessions)"
  by (simp add: handleSequentialThinking_def Let_def thinking_step_def split: option.splits)

lemma handle_result:
  "arg_thought a = Some content \<Longrightarrow>
   fst (handleSequentialThinking now a sessions) =
     Inr (thinking_result a (default_sessionId (arg_sessionId a)) content
            (thinking_step now a (get_or_create_thinking now (default_sessionId (arg_sessionId a)) sessions)))"
  by (simp add: handleSequentialThinking_def Let_def thinking_step_def)

text \<open>The session that a call names is in the store afterwards, with the writes of the
  call: its \<open>lastUpdated\<close> is the instant of the call, so the sweep keeps it.\<close>

lemma handle_lookup:
  "map_of (snd (handleSequentialThinking now a sessions)) (default_sessionId (arg_sessionId a)) =
     Some (thinking_step now a (get_or_create_thinking now (default_sessionId (arg_sessionId a)) sessions))"
  unfolding handle_store cleanupOldSessions_def Let_def
  by (rule map_of_filter_update_same) (simp add: lastUpdated_thinking_step SESSION_TIMEOUT_def)

lemma steps_thinking_step:
  "steps (thinking_step now a s) = steps s @ (if is_branch_step a then [] else [make_step now a])"
  by (auto simp: thinking_step_def update_metadata_def add_step_def is_branch_step_def
      split: option.splits bool.splits)


lemma totalThoughts_thinking_step:
  "totalThoughts (thinking_step now a s) = math_max (totalThoughts s) (to_number (arg_totalThoughts a))"
  by (auto simp: thinking_step_def update_metadata_def add_step_def split: option.splits bool.splits)

lemma isCompleted_thinking_step:
  "isCompleted (thinking_step now a s) = (\<not> truthy_bool (arg_nextThoughtNeeded a))"
  by (simp add: thinking_step_def update_metadata_def)

lemma session_steps_handle:
  "default_sessionId (arg_sessionId a) = sid \<Longrightarrow>
   session_steps (snd (handleSequentialThinking now a sessions)) sid =
     session_steps sessions sid @ (if is_branch_step a then [] else [make_step now a])"
  using handle_lookup [of now a sessions]
  by (simp add: session_steps_def steps_thinking_step get_or_create_thinking_def split: option.splits)


lemma stored_total_handle:
  "default_sessionId (arg_sessionId a) = sid \<Longrightarrow>
   stored_total (snd (handleSequentialThinking now a sessions)) sid =
     math_max (stored_total sessions sid) (to_number (arg_totalThoughts a))"
  using handle_lookup [of now a sessions]
  by (simp add: stored_total_def totalThoughts_thinking_step get_or_create_thinking_def split: option.splits)

subsection \<open>Branch logs\<close>




subsection \<open>The three-step scenario\<close>

text \<open>
  Claim C6: the three steps \<open>(1, 3, true)\<close>, \<open>(2, 3, true)\<close>, \<open>(3, 3, false)\<close>
  submitted to a session \<open>s1\<close> that the store does not hold yet, at any three instants
  and with any three thought texts, leave a session with \<open>isCompleted = true\<close> and three
  steps, and the third call returns a payload that reports 100 percent progress (and a
  completed session with three steps).
\<close>

theorem three_step_scenario:
  fixes sessions :: "ThinkingSession store" and t1 t2 t3 :: time and x1 x2 x3 :: string
  assumes "map_of sessions ''s1'' = None"
  defines "st1 \<equiv> snd (handleSequentialThinking t1 (scenario_step 1 3 True x1) sessions)"
  defines "st2 \<equiv> snd (handleSequentialThinking t2 (scenario_step 2 3 True x2) st1)"
  defines "r3 \<equiv> handleSequentialThinking t3 (scenario_step 3 3 False x3) st2"
  shows "\<exists>s p. map_of (snd r3) ''s1'' = Some s \<and> isCompleted s \<and> length (steps s) = 3
           \<and> fst r3 = Inr p \<and> out_progressPercentage p = Some 100 \<and> out_isCompleted p
           \<and> totalSteps (out_sessionSummary p) = 3"
proof -
  have sid [simp]: "default_sessionId (arg_sessionId (scenario_step n t nxt x)) = ''s1''" for n t nxt x
    by (simp add: scenario_step_def)
  have nb [simp]: "\<not> is_branch_step (scenario_step n t nxt x)" for n t nxt x
    by (simp add: scenario_step_def is_branch_step_def)
  have s0: "session_steps sessions ''s1'' = []"
    using assms(1) by (simp add: session_steps_def)
  have s1: "length (session_steps st1 ''s1'') = 1"
    unfolding st1_def by (simp add: session_steps_handle s0)
  have s2: "length (session_steps st2 ''s1'') = 2"
    unfolding st2_def using s1 by (simp add: session_steps_handle)
  have s3: "length (session_steps (snd r3) ''s1'') = 3"
    unfolding r3_def using s2 by (simp add: session_steps_handle)
  let ?s = "thinking_step t3 (scenario_step 3 3 False x3) (get_or_create_thinking t3 ''s1'' st2)"
  let ?p = "thinking_result (scenario_step 3 3 False x3) ''s1'' x3 ?s"
  have look: "map_of (snd r3) ''s1'' = Some ?s"
    unfolding r3_def using handle_lookup [of t3 "scenario_step 3 3 False x3" st2] by simp
  have len: "length (steps ?s) = 3"
    using s3 look by (simp add: session_steps_def)
  have compl: "isCompleted ?s"
    by (simp add: isCompleted_thinking_step scenario_step_def)
  have res: "fst r3 = Inr ?p"
    unfolding r3_def using handle_result [of "scenario_step 3 3 False x3" x3 t3 st2]
    by (simp add: scenario_step_def)
  have pay: "out_progressPercentage ?p = Some 100" "out_isCompleted ?p"
    "totalSteps (out_sessionSummary ?p) = length (steps ?s)"
    by (simp_all add: thinking_result_def scenario_step_def progress_complete
        del: progressPercentage.simps)
  show ?thesis
    using look len compl res pay by simp
qed

theorem three_step_scenario_witness:
  "map_of ([] :: ThinkingSession store) ''s1'' = None \<and>
   (\<exists>s p. map_of (snd (handleSequentialThinking 30 (scenario_step 3 3 False ''c'')
                 (snd (handleSequentialThinking 20 (scenario_step 2 3 True ''b'')
                    (snd (handleSequentialThinking 10 (scenario_step 1 3 True ''a'') [])))))) ''s1'' = Some s
      \<and> isCompleted s \<and> length (steps s) = 3
      \<and> fst (handleSequentialThinking 30 (scenario_step 3 3 False ''c'')
                 (snd (handleSequentialThinking 20 (scenario_step 2 3 True ''b'')
                    (snd (handleSequentialThinking 10 (scenario_step 1 3 True ''a'') []))))) = Inr p
      \<and> out_progressPercentage p = Some 100 \<and> out_isCompleted p
      \<and> totalSteps (out_sessionSummary p) = 3)"
  using three_step_scenario [where sessions = "[]" and ?t1.0 = 10 and ?x1.0 = "''a''" and ?t2.0 = 20
      and ?x2.0 = "''b''" and ?t3.0 = 30 and ?x3.0 = "''c''"]
  by simp

subsection \<open>The stored total\<close>

lemma foldl_max_Max: "foldl max m ns = Max (insert m (set ns))" for m :: int
proof (induction ns arbitrary: m)
  case Nil
  then show ?case by simp
next
  case (Cons n ns)
  have "Max (insert (max m n) (set ns)) = Max (insert m (insert n (set ns)))"
    by (cases "set ns = {}") (simp_all add: max.assoc)
  then show ?case
    by (simp add: Cons.IH)
qed

lemma foldl_max_ge: "m \<le> foldl max m ns" for m :: int
  by (simp add: foldl_max_Max)

lemma foldl_math_max_numbers: "foldl math_max (Num m) (map Num ns) = Num (foldl max m ns)"
  by (induction ns arbitrary: m) simp_all

lemma foldl_math_max_NaN: "foldl math_max NaN xs = NaN"
  by (induction xs) simp_all

lemma foldl_math_max_absorbs: "NaN \<in> set xs \<Longrightarrow> foldl math_max m xs = NaN"
proof (induction xs arbitrary: m)
  case Nil
  then show ?case by simp
next
  case (Cons x xs)
  show ?case
  proof (cases "x = NaN")
    case True
    then show ?thesis by (cases m) (simp_all add: foldl_math_max_NaN)
  next
    case False
    with Cons.prems have "NaN \<in> set xs" by simp
    then show ?thesis by (simp add: Cons.IH)
  qed
qed

text \<open>A call that names another session leaves the session alone, unless the sweep at
  the end of the call removes it.\<close>

lemma handle_other_kept:
  assumes "default_sessionId (arg_sessionId a) \<noteq> sid"
    and "case map_of sessions sid of None \<Rightarrow> True | Some s \<Rightarrow> \<not> thinking_expired now s"
  shows "map_of (snd (handleSequentialThinking now a sessions)) sid = map_of sessions sid"
proof (cases "map_of sessions sid")
  case None
  then have "map_of (AList.update (default_sessionId (arg_sessionId a)) v sessions) sid = None" for v
    using assms(1) by (simp add: AList.update_conv')
  then show ?thesis
    unfolding handle_store cleanupOldSessions_def Let_def using None
    by (simp add: map_of_filter_absent)
next
  case (Some s)
  then have "map_of (AList.update (default_sessionId (arg_sessionId a)) v sessions) sid = Some s" for v
    using assms(1) by (simp add: AList.update_conv')
  moreover have "\<not> lastUpdated s < now - SESSION_TIMEOUT"
    using assms(2) Some by (simp add: thinking_expired_def)
  ultimately show ?thesis
    unfolding handle_store cleanupOldSessions_def Let_def using Some
    by (simp add: map_of_filter_keep)
qed

lemma stored_total_other:
  assumes "default_sessionId (arg_sessionId a) \<noteq> sid"
    and "case map_of sessions sid of None \<Rightarrow> True | Some s \<Rightarrow> \<not> thinking_expired now s"
  shows "stored_total (snd (handleSequentialThinking now a sessions)) sid = stored_total sessions sid"
  using handle_other_kept [OF assms] by (simp add: stored_total_def)

lemma run_thinking_append:
  "run_thinking (calls1 @ calls2) sessions = run_thinking calls2 (run_thinking calls1 sessions)"
  by (induction calls1 arbitrary: sessions) auto

lemma not_swept_append:
  "not_swept sid (calls1 @ calls2) sessions \<longleftrightarrow>
     not_swept sid calls1 sessions \<and> not_swept sid calls2 (run_thinking calls1 sessions)"
  by (induction calls1 arbitrary: sessions) auto

lemma on_session_not_swept: "on_session sid calls \<Longrightarrow> not_swept sid calls sessions"
  by (induction calls arbitrary: sessions) (auto simp: on_session_def)

lemma stored_total_run:
  "not_swept sid calls sessions \<Longrightarrow>
   stored_total (run_thinking calls sessions) sid =
     foldl math_max (stored_total sessions sid) (totals_seen sid calls)"
proof (induction calls arbitrary: sessions)
  case Nil
  then show ?case by (simp add: totals_seen_def)
next
  case (Cons c calls)
  obtain now a where c: "c = (now, a)" by (cases c)
  let ?st = "snd (handleSequentialThinking now a sessions)"
  from Cons.prems have rest: "not_swept sid calls ?st"
    by (simp add: c)
  have ih: "stored_total (run_thinking calls ?st) sid =
      foldl math_max (stored_total ?st sid) (totals_seen sid calls)"
    using Cons.IH [OF rest] .
  show ?case
  proof (cases "default_sessionId (arg_sessionId a) = sid")
    case True
    then show ?thesis
      using ih by (simp add: c totals_seen_def stored_total_handle)
  next
    case False
    with Cons.prems have "case map_of sessions sid of None \<Rightarrow> True | Some s \<Rightarrow> \<not> thinking_expired now s"
      by (simp add: c)
    then have "stored_total ?st sid = stored_total sessions sid"
      using False by (intro stored_total_other)
    then show ?thesis
      using ih False by (simp add: c totals_seen_def)
  qed
qed

text \<open>
  Claim C7 as stated fails over some sequences of calls. The handler does not check its
  arguments: a call without \<open>totalThoughts\<close> is accepted, \<open>Math.max\<close> of a number and
  \<open>undefined\<close> is \<open>NaN\<close>, and \<open>NaN\<close> stays when a later call carries 7, so the stored
  value is not the greatest argument seen. And a session that has been idle for more
  than an hour is removed by the sweep of a call that names another session; the next
  call under its id starts from 0 again, so the value stored under the id drops from 5
  to 3.
\<close>

theorem total_thoughts_counterexample:
  "stored_total (run_thinking [(10, total_call ''s1'' (Some 5))] []) ''s1'' = Num 5 \<and>
   stored_total (run_thinking [(10, total_call ''s1'' (Some 5)), (20, total_call ''s1'' None)] [])
     ''s1'' = NaN \<and>
   stored_total (run_thinking [(10, total_call ''s1'' (Some 5)), (20, total_call ''s1'' None),
       (30, total_call ''s1'' (Some 7))] []) ''s1'' = NaN \<and>
   map_of (run_thinking [(10, total_call ''s1'' (Some 5)), (3600011, total_call ''s2'' (Some 1))] [])
     ''s1'' = None \<and>
   stored_total (run_thinking [(10, total_call ''s1'' (Some 5)), (3600011, total_call ''s2'' (Some 1)),
       (3600012, total_call ''s1'' (Some 3))] []) ''s1'' = Num 3"
  by (simp add: handle_store thinking_step_def total_call_def get_or_create_thinking_def make_step_def
      add_step_def is_branch_step_def update_metadata_def cleanupOldSessions_def SESSION_TIMEOUT_def
      stored_total_def)

text \<open>
  Claim C7, amended. After a \<open>sequential_thinking\<close> call the stored total of the
  session that the call names is \<open>Math.max\<close> of its previous value (0 for a session
  that the call creates) and the \<open>totalThoughts\<close> argument of the call, whatever the
  store is; the stored total of another session is unchanged, unless that session is
  expired and the call sweeps it. Hence, over any sequence of calls, on any sessions,
  during which the session \<open>sid\<close> is not swept, its stored total is what \<open>Math.max\<close>
  makes, call by call, of the value before the sequence and the \<open>totalThoughts\<close>
  arguments of the calls that name the session. When these calls all carry numbers and
  the value before the sequence is a number \<open>m\<close>, the stored total is the greatest of
  \<open>m\<close> and these numbers, the high-water mark, and it is not below \<open>m\<close>: the stored
  total never decreases. When one of these calls carries no \<open>totalThoughts\<close>, or the
  value before the sequence is \<open>NaN\<close>, the stored total is \<open>NaN\<close>.
\<close>

theorem total_thoughts_high_water_mark:
  "(default_sessionId (arg_sessionId a) = sid \<longrightarrow>
      stored_total (snd (handleSequentialThinking now a sessions)) sid =
        math_max (stored_total sessions sid) (to_number (arg_totalThoughts a))) \<and>
   (default_sessionId (arg_sessionId a) \<noteq> sid \<and> not_swept sid [(now, a)] sessions \<longrightarrow>
      stored_total (snd (handleSequentialThinking now a sessions)) sid = stored_total sessions sid) \<and>
   (not_swept sid calls sessions \<longrightarrow>
      stored_total (run_thinking calls sessions) sid =
        foldl math_max (stored_total sessions sid) (totals_seen sid calls) \<and>
      (totals_seen sid calls = map Num ns \<and> stored_total sessions sid = Num m \<longrightarrow>
         stored_total (run_thinking calls sessions) sid = Num (Max (insert m (set ns))) \<and>
         m \<le> Max (insert m (set ns))) \<and>
      (NaN \<in> set (totals_seen sid calls) \<or> stored_total sessions sid = NaN \<longrightarrow>
         stored_total (run_thinking calls sessions) sid = NaN))"
proof -
  let ?after = "stored_total (run_thinking calls sessions) sid"
  have one: "stored_total (snd (handleSequentialThinking now a sessions)) sid =
        math_max (stored_total sessions sid) (to_number (arg_totalThoughts a))"
    if "default_sessionId (arg_sessionId a) = sid"
    using that by (rule stored_total_handle)
  have other: "stored_total (snd (handleSequentialThinking now a sessions)) sid = stored_total sessions sid"
    if "default_sessionId (arg_sessionId a) \<noteq> sid" and "not_swept sid [(now, a)] sessions"
    using that by (intro stored_total_other) simp_all
  have fold: "?after = foldl math_max (stored_total sessions sid) (totals_seen sid calls)"
    if "not_swept sid calls sessions"
    using that by (rule stored_total_run)
  have num: "?after = Num (Max (insert m (set ns))) \<and> m \<le> Max (insert m (set ns))"
    if "not_swept sid calls sessions" and "totals_seen sid calls = map Num ns"
      and "stored_total sessions sid = Num m"
    using fold that by (simp add: foldl_math_max_numbers foldl_max_Max)
  have nan: "?after = NaN"
    if "not_swept sid calls sessions"
      and "NaN \<in> set (totals_seen sid calls) \<or> stored_total sessions sid = NaN"
    using fold that by (auto simp: foldl_math_max_NaN foldl_math_max_absorbs)
  show ?thesis
    using one other fold num nan by blast
qed

theorem total_thoughts_high_water_mark_witness:
  "default_sessionId (arg_sessionId (total_call ''s1'' (Some 5))) = ''s1'' \<and>
   stored_total (snd (handleSequentialThinking 50 (total_call ''s1'' (Some 5))
       [(''s1'', expired_thinking_session)])) ''s1'' =
     math_max (Num 3) (Num 5) \<and>
   not_swept ''s1''
     [(10, total_call ''s1'' (Some 3)), (20, total_call ''s2'' (Some 9)),
      (30, total_call ''s1'' (Some 5)), (40, total_call ''s1'' (Some 4))]
     [(''s1'', expired_thinking_session)] \<and>
   totals_seen ''s1''
     [(10, total_call ''s1'' (Some 3)), (20, total_call ''s2'' (Some 9)),
      (30, total_call ''s1'' (Some 5)), (40, total_call ''s1'' (Some 4))] = map Num [3, 5, 4] \<and>
   stored_total [(''s1'', expired_thinking_session)] ''s1'' = Num 3 \<and>
   stored_total (run_thinking
     [(10, total_call ''s1'' (Some 3)), (20, total_call ''s2'' (Some 9)),
      (30, total_call ''s1'' (Some 5)), (40, total_call ''s1'' (Some 4))]
     [(''s1'', expired_thinking_session)]) ''s1'' = Num 5"
proof -
  have h: "not_swept ''s1''
     [(10, total_call ''s1'' (Some 3)), (20, total_call ''s2'' (Some 9)),
      (30, total_call ''s1'' (Some 5)), (40, total_call ''s1'' (Some 4))]
     [(''s1'', expired_thinking_session)]"
    by (simp add: handle_store thinking_step_def total_call_def get_or_create_thinking_def
        make_step_def add_step_def is_branch_step_def update_metadata_def cleanupOldSessions_def
        SESSION_TIMEOUT_def thinking_expired_def expired_thinking_session_def)
  have s: "totals_seen ''s1''
     [(10, total_call ''s1'' (Some 3)), (20, total_call ''s2'' (Some 9)),
      (30, total_call ''s1'' (Some 5)), (40, total_call ''s1'' (Some 4))] = map Num [3, 5, 4]"
    by (simp add: totals_seen_def total_call_def)
  have b: "stored_total [(''s1'', expired_thinking_session)] ''s1'' = Num 3"
    by (simp add: stored_total_def expired_thinking_session_def)
  have n: "default_sessionId (arg_sessionId (total_call ''s1'' (Some 5))) = ''s1''"
    by (simp add: total_call_def)
  have t: "to_number (arg_totalThoughts (total_call ''s1'' (Some 5))) = Num 5"
    by (simp add: total_call_def)
  show ?thesis
    using total_thoughts_high_water_mark [where a = "total_call ''s1'' (Some 5)" and sid = "''s1''"
        and now = 50 and sessions = "[(''s1'', expired_thinking_session)]"
        and calls = "[(10, total_call ''s1'' (Some 3)), (20, total_call ''s2'' (Some 9)),
          (30, total_call ''s1'' (Some 5)), (40, total_call ''s1'' (Some 4))]"
        and ns = "[3, 5, 4]" and m = 3] h s b n t
    by simp
qed

section \<open>Sweeps and error paths\<close>

lemma pw_cleanup_idem:
  "pw_cleanupOldSessions now (pw_cleanupOldSessions now st) = pw_cleanupOldSessions now st"
  by (simp add: pw_cleanupOldSessions_def)

lemma bu_cleanup_idem:
  "bu_cleanupOldSessions now (bu_cleanupOldSessions now st) = bu_cleanupOldSessions now st"
  by (simp add: bu_cleanupOldSessions_def)

lemma pw_cleanup_filter:
  "pw_cleanupOldSessions now st = filter (\<lambda>(sid, s). \<not> pw_expired now s) st"
  by (simp add: pw_cleanupOldSessions_def pw_expired_def Let_def) (rule filter_cong, auto)

lemma bu_cleanup_filter:
  "bu_cleanupOldSessions now st = filter (\<lambda>(sid, s). \<not> bu_expired now s) st"
  by (simp add: bu_cleanupOldSessions_def bu_expired_def Let_def) (rule filter_cong, auto)

lemma cleanup_filter:
  "cleanupOldSessions now st = filter (\<lambda>(sid, s). \<not> thinking_expired now s) st"
  by (simp add: cleanupOldSessions_def thinking_expired_def Let_def) (rule filter_cong, auto)

lemma pw_cleanup_none_expired:
  "list_all (\<lambda>(sid, s). \<not> pw_expired now s) st \<Longrightarrow> pw_cleanupOldSessions now st = st"
  by (simp add: pw_cleanup_filter list_all_iff)

lemma bu_cleanup_none_expired:
  "list_all (\<lambda>(sid, s). \<not> bu_expired now s) st \<Longrightarrow> bu_cleanupOldSessions now st = st"
  by (simp add: bu_cleanup_filter list_all_iff)

lemma bu_cleanup_subset: "set (bu_cleanupOldSessions now st) \<subseteq> set st"
  by (auto simp: bu_cleanupOldSessions_def)

lemma bu_cleanup_keys: "fst ` set (bu_cleanupOldSessions now st) \<subseteq> fst ` set st"
  by (auto simp: bu_cleanupOldSessions_def)

text \<open>Every playwright and browser-use handler starts with the sweep and reads the store
  only through its result, so it cannot tell a store from the swept store.\<close>

lemma pw_handlers_swept:
  "(name, h) \<in> set (handlers playwrightConfig) \<Longrightarrow>
   h w a st = h w a (pw_cleanupOldSessions (pw_now w) st)"
  by (auto simp: playwrightConfig_def navigateHandler_def clickHandler_def fillHandler_def
      screenshotHandler_def getTextHandler_def waitForElementHandler_def listSessionsHandler_def
      pw_cleanup_idem)

lemma bu_handlers_swept:
  "(name, h) \<in> set (handlers browserUseConfig) \<Longrightarrow>
   h w a st = h w a (bu_cleanupOldSessions (bu_now w) st)"
  by (auto simp: browserUseConfig_def naturalLanguageActionHandler_def browserUseNavigateHandler_def
      getConversationHistoryHandler_def listBrowserUseSessionsHandler_def bu_cleanup_idem)

lemma interpreterResult_string: "interpreterResult (JStr s) = Inr s"
  by (simp add: interpreterResult_def)

lemma interpreterResult_shown: "interpreterResult instr = Inr shown \<Longrightarrow> to_string instr = Some shown"
  by (auto simp: interpreterResult_def split: option.splits json.splits if_splits)

lemma present_json_Some: "present_json v = Some x \<Longrightarrow> v = Some x"
  by (cases v) (auto split: if_splits)

lemma interpreterResult_error: "interpreterResult instr = Inl e \<Longrightarrow> \<exists>m. e = TypeError m"
  by (auto simp: interpreterResult_def split: option.splits json.splits if_splits)

text \<open>The errors that the handlers raise themselves (\<open>throw new Error\<close>) all come
  before the first write.\<close>

lemma fill_error_store:
  "fst (fillHandler w a st) = Inl (Error msg) \<Longrightarrow>
   snd (fillHandler w a st) = pw_cleanupOldSessions (pw_now w) st"
  by (auto simp: fillHandler_def Let_def split: option.splits json.splits)

lemma pw_handlers_error_store:
  assumes "(name, h) \<in> set (handlers playwrightConfig)" and "fst (h w a st) = Inl (Error msg)"
  shows "snd (h w a st) = pw_cleanupOldSessions (pw_now w) st"
proof (cases "h = fillHandler")
  case True
  with assms(2) show ?thesis by (simp add: fill_error_store)
next
  case False
  with assms show ?thesis
    by (auto simp: playwrightConfig_def navigateHandler_def clickHandler_def
        screenshotHandler_def getTextHandler_def waitForElementHandler_def listSessionsHandler_def
        Let_def split: option.splits if_splits)
qed

lemma natural_error_store:
  "fst (naturalLanguageActionHandler w a st) = Inl (Error msg) \<Longrightarrow>
   snd (naturalLanguageActionHandler w a st) = bu_cleanupOldSessions (bu_now w) st"
  by (auto simp: naturalLanguageActionHandler_def Let_def
      split: option.splits sum.splits dest: interpreterResult_error)

lemma navigate_error_store:
  "fst (browserUseNavigateHandler w a st) = Inl e \<Longrightarrow>
   snd (browserUseNavigateHandler w a st) = bu_cleanupOldSessions (bu_now w) st"
  by (auto simp: browserUseNavigateHandler_def Let_def split: option.splits if_splits sum.splits)

lemma bu_handlers_error_store:
  assumes "(name, h) \<in> set (handlers browserUseConfig)" and "fst (h w a st) = Inl (Error msg)"
  shows "snd (h w a st) = bu_cleanupOldSessions (bu_now w) st"
proof -
  from assms(1) consider "h = naturalLanguageActionHandler" | "h = browserUseNavigateHandler"
    | "h = getConversationHistoryHandler" | "h = listBrowserUseSessionsHandler"
    by (auto simp: browserUseConfig_def)
  then show ?thesis
  proof cases
    case 1
    with assms(2) show ?thesis by (simp add: natural_error_store)
  next
    case 2
    with assms(2) show ?thesis by (simp add: navigate_error_store)
  next
    case 3
    with assms(2) show ?thesis
      by (auto simp: getConversationHistoryHandler_def Let_def split: option.splits)
  next
    case 4
    with assms(2) show ?thesis
      by (simp add: listBrowserUseSessionsHandler_def Let_def)
  qed
qed

text \<open>With arguments of the declared types, the handlers raise no other errors.\<close>

lemma pw_handlers_typed_errors:
  assumes "(name, h) \<in> set (handlers playwrightConfig)" and "string_or_absent (pw_value a)"
    and "fst (h w a st) = Inl e"
  shows "\<exists>msg. e = Error msg"
proof (cases "h = fillHandler")
  case True
  with assms(2,3) show ?thesis
    by (auto simp: fillHandler_def Let_def string_or_absent_def pw_not_found_def
        split: option.splits json.splits if_splits)
next
  case False
  with assms(1,3) show ?thesis
    by (auto simp: playwrightConfig_def navigateHandler_def clickHandler_def
        screenshotHandler_def getTextHandler_def waitForElementHandler_def listSessionsHandler_def
        Let_def pw_not_found_def split: option.splits if_splits)
qed

lemma check_apiKey_error: "check_apiKey k = Inl e \<Longrightarrow> \<exists>msg. e = Error msg"
  by (auto simp: check_apiKey_def Let_def split: option.splits if_splits)

lemma bu_handlers_typed_errors:
  assumes "(name, h) \<in> set (handlers browserUseConfig)" and "string_or_absent (bu_instruction a)"
    and "fst (h w a st) = Inl e"
  shows "\<exists>msg. e = Error msg"
proof -
  from assms(1) consider "h = naturalLanguageActionHandler" | "h = browserUseNavigateHandler"
    | "h = getConversationHistoryHandler" | "h = listBrowserUseSessionsHandler"
    by (auto simp: browserUseConfig_def)
  then show ?thesis
  proof cases
    case 1
    with assms(2,3) show ?thesis
      by (auto simp: naturalLanguageActionHandler_def Let_def string_or_absent_def
          interpreterResult_string split: option.splits json.splits if_splits sum.splits
          dest: check_apiKey_error)
  next
    case 2
    with assms(3) show ?thesis
      by (auto simp: browserUseNavigateHandler_def Let_def
          split: option.splits if_splits sum.splits dest: check_apiKey_error)
  next
    case 3
    with assms(3) show ?thesis
      by (auto simp: getConversationHistoryHandler_def Let_def split: option.splits)
  next
    case 4
    with assms(3) show ?thesis
      by (simp add: listBrowserUseSessionsHandler_def Let_def)
  qed
qed

text \<open>The handlers keep the keys of the store distinct, as a \<open>Map\<close> does.\<close>

lemma wf_store_filter: "wf_store st \<Longrightarrow> wf_store (filter P st)"
  by (simp add: wf_store_def distinct_map_filter)

lemma wf_store_update: "wf_store st \<Longrightarrow> wf_store (AList.update k v st)"
  by (simp add: wf_store_def AList.distinct_update)

lemma thinking_handler_wf:
  "wf_store st \<Longrightarrow> wf_store (snd (handleSequentialThinking now a st))"
  by (simp add: handle_store cleanupOldSessions_def wf_store_filter wf_store_update)

lemma pw_handlers_wf:
  assumes "(name, h) \<in> set (handlers playwrightConfig)" and "wf_store st"
  shows "wf_store (snd (h w a st))"
proof -
  have "wf_store (pw_cleanupOldSessions (pw_now w) st)"
    using assms(2) by (simp add: pw_cleanupOldSessions_def wf_store_filter)
  then show ?thesis
    using assms(1) wf_store_update [of "pw_cleanupOldSessions (pw_now w) st"]
    by (auto simp: playwrightConfig_def navigateHandler_def clickHandler_def fillHandler_def
        screenshotHandler_def getTextHandler_def waitForElementHandler_def listSessionsHandler_def
        Let_def split: option.splits json.splits)
qed

lemma bu_handlers_wf:
  assumes "(name, h) \<in> set (handlers browserUseConfig)" and "wf_store st"
  shows "wf_store (snd (h w a st))"
proof -
  have "wf_store (bu_cleanupOldSessions (bu_now w) st)"
    using assms(2) by (simp add: bu_cleanupOldSessions_def wf_store_filter)
  then show ?thesis
    using assms(1) wf_store_update [of "bu_cleanupOldSessions (bu_now w) st"]
    by (auto simp: browserUseConfig_def naturalLanguageActionHandler_def browserUseNavigateHandler_def
        getConversationHistoryHandler_def listBrowserUseSessionsHandler_def
        Let_def split: option.splits sum.splits)
qed

subsection \<open>Error paths\<close>

text \<open>
  Claim C2 as stated fails in two ways. First, the sweep comes before the validation:
  a \<open>playwright_click\<close> call without a selector, made when the store holds an
  expired session, throws and leaves a store without that session. Second, three
  handlers call a string method on an argument that they have not checked, after they
  have written to the store, and the call throws a \<open>TypeError\<close>: \<open>sequential_thinking\<close>
  without a \<open>thought\<close> throws at the log line 99, after the session has been created,
  the step appended and the metadata written; \<open>playwright_fill\<close> with the number 123 as
  \<open>value\<close> throws at line 138, after \<open>lastUsed\<close> of the session has been written;
  \<open>browseruse_natural_action\<close> with the number 5 as \<open>instruction\<close> throws at line 89,
  after the session has been created and stored.
\<close>

theorem error_paths_counterexample:
  "clickHandler \<lparr>pw_now = 1800001, valid_url = (\<lambda>u. True)\<rparr> no_pw_args
      [(''old'', expired_browser_session)] =
     (Inl (Error ''CSS selector is required for clicking''), []) \<and>
   handleSequentialThinking 0 (branch_args None None None) [] =
     (Inl (TypeError ''Cannot read properties of undefined (reading 'substring')''),
      [(''default'',
        \<lparr>sessionId = ''default'', totalThoughts = Num 3, currentThought = Some 2,
         steps = [\<lparr>thoughtNumber = Some 2, thought = None, timestamp = 0, isRevision = False,
                   revisesThought = None, branchFromThought = None, branchId = None\<rparr>],
         branches = [], created = 0, lastUpdated = 0, isCompleted = False\<rparr>)]) \<and>
   fillHandler \<lparr>pw_now = 5, valid_url = (\<lambda>u. True)\<rparr>
      (no_pw_args\<lparr>pw_selector := Some ''#q'', pw_value := Some (JNum 123)\<rparr>)
      [(''default'', open_browser_session)] =
     (Inl (TypeError ''value.substring is not a function''),
      [(''default'', open_browser_session\<lparr>bs_lastUsed := 5\<rparr>)]) \<and>
   naturalLanguageActionHandler \<lparr>bu_now = 5, pick = 0\<rparr>
      (no_bu_args\<lparr>bu_instruction := Some (JNum 5), bu_apiKey := Some good_key\<rparr>) [] =
     (Inl (TypeError ''instruction.includes is not a function''),
      [(''default'',
        \<lparr>us_sessionId = ''default'', us_created = 5, lastUsed = 5, currentUrl = None,
         isActive = True, apiKey = ''sk-0123456...'', conversationHistory = []\<rparr>)])"
proof -
  have key: "check_apiKey (Some good_key) = Inr good_key"
    by (simp add: check_apiKey_def validateOpenAIKey_def good_key_def Let_def)
  have click: "clickHandler \<lparr>pw_now = 1800001, valid_url = (\<lambda>u. True)\<rparr> no_pw_args
      [(''old'', expired_browser_session)] =
     (Inl (Error ''CSS selector is required for clicking''), [])"
    by (simp add: clickHandler_def no_pw_args_def expired_browser_session_def
        pw_cleanupOldSessions_def PW_SESSION_TIMEOUT_def)
  have think: "handleSequentialThinking 0 (branch_args None None None) [] =
     (Inl (TypeError ''Cannot read properties of undefined (reading 'substring')''),
      [(''default'',
        \<lparr>sessionId = ''default'', totalThoughts = Num 3, currentThought = Some 2,
         steps = [\<lparr>thoughtNumber = Some 2, thought = None, timestamp = 0, isRevision = False,
                   revisesThought = None, branchFromThought = None, branchId = None\<rparr>],
         branches = [], created = 0, lastUpdated = 0, isCompleted = False\<rparr>)])"
    by (simp add: handleSequentialThinking_def branch_args_def get_or_create_thinking_def
        make_step_def add_step_def is_branch_step_def update_metadata_def cleanupOldSessions_def
        SESSION_TIMEOUT_def Let_def)
  have fill: "fillHandler \<lparr>pw_now = 5, valid_url = (\<lambda>u. True)\<rparr>
      (no_pw_args\<lparr>pw_selector := Some ''#q'', pw_value := Some (JNum 123)\<rparr>)
      [(''default'', open_browser_session)] =
     (Inl (TypeError ''value.substring is not a function''),
      [(''default'', open_browser_session\<lparr>bs_lastUsed := 5\<rparr>)])"
    by (simp add: fillHandler_def no_pw_args_def open_browser_session_def
        pw_cleanupOldSessions_def PW_SESSION_TIMEOUT_def Let_def)
  have natural: "naturalLanguageActionHandler \<lparr>bu_now = 5, pick = 0\<rparr>
      (no_bu_args\<lparr>bu_instruction := Some (JNum 5), bu_apiKey := Some good_key\<rparr>) [] =
     (Inl (TypeError ''instruction.includes is not a function''),
      [(''default'',
        \<lparr>us_sessionId = ''default'', us_created = 5, lastUsed = 5, currentUrl = None,
         isActive = True, apiKey = ''sk-0123456...'', conversationHistory = []\<rparr>)])"
    using key
    by (simp add: naturalLanguageActionHandler_def no_bu_args_def bu_cleanupOldSessions_def
        interpreterResult_def number_to_string_def good_key_def Let_def)
  show ?thesis
    using click think fill natural by (simp only: simp_thms)
qed

text \<open>
  Claim C2, amended: for every handler in the handler table of the playwright and of the
  browser-use tool-set and every input on which the handler signals an error by one of
  its own checks (its \<open>throw new Error\<close> statements: a missing or empty required
  argument, an invalid URL, a rejected credential, an unknown session), the only change
  of the Session Store is the expiry sweep that the handler runs first: the store after
  the call is the store before it without the expired sessions (no session is created,
  no history entry appended, no field of a session written), and it is the store before
  the call when no session is expired. This holds whatever JSON values the \<open>value\<close>
  and the \<open>instruction\<close> are; and when they are strings or left out, as the schemas
  declare, the handlers signal no other error. The \<open>TypeError\<close> of a string method
  called on an unchecked argument is not covered, and neither is the reasoning handler,
  which has no check of its own and never signals an error of this kind.
\<close>

theorem error_paths_only_sweep:
  "(\<forall>(name, h) \<in> set (handlers playwrightConfig).
      (\<forall>msg. fst (h w a st) = Inl (Error msg) \<longrightarrow>
         snd (h w a st) = pw_cleanupOldSessions (pw_now w) st \<and>
         (list_all (\<lambda>(sid, s). \<not> pw_expired (pw_now w) s) st \<longrightarrow> snd (h w a st) = st)) \<and>
      (\<forall>e. string_or_absent (pw_value a) \<and> fst (h w a st) = Inl e \<longrightarrow> (\<exists>msg. e = Error msg))) \<and>
   (\<forall>(name, h) \<in> set (handlers browserUseConfig).
      (\<forall>msg. fst (h w' a' st') = Inl (Error msg) \<longrightarrow>
         snd (h w' a' st') = bu_cleanupOldSessions (bu_now w') st' \<and>
         (list_all (\<lambda>(sid, s). \<not> bu_expired (bu_now w') s) st' \<longrightarrow> snd (h w' a' st') = st')) \<and>
      (\<forall>e. string_or_absent (bu_instruction a') \<and> fst (h w' a' st') = Inl e \<longrightarrow>
         (\<exists>msg. e = Error msg))) \<and>
   (\<forall>msg. fst (handleSequentialThinking now ta ss) \<noteq> Inl (Error msg))"
proof -
  have pw: "snd (h w a st) = pw_cleanupOldSessions (pw_now w) st \<and>
        (list_all (\<lambda>(sid, s). \<not> pw_expired (pw_now w) s) st \<longrightarrow> snd (h w a st) = st)"
    if "(name, h) \<in> set (handlers playwrightConfig)" and "fst (h w a st) = Inl (Error msg)"
    for name h msg
    using pw_handlers_error_store [OF that] pw_cleanup_none_expired [of "pw_now w" st] by simp
  have pwt: "\<exists>msg. e = Error msg"
    if "(name, h) \<in> set (handlers playwrightConfig)" and "string_or_absent (pw_value a)"
      and "fst (h w a st) = Inl e" for name h e
    using that by (rule pw_handlers_typed_errors)
  have bu: "snd (h w' a' st') = bu_cleanupOldSessions (bu_now w') st' \<and>
        (list_all (\<lambda>(sid, s). \<not> bu_expired (bu_now w') s) st' \<longrightarrow> snd (h w' a' st') = st')"
    if "(name, h) \<in> set (handlers browserUseConfig)" and "fst (h w' a' st') = Inl (Error msg)"
    for name h msg
    using bu_handlers_error_store [OF that] bu_cleanup_none_expired [of "bu_now w'" st'] by simp
  have but: "\<exists>msg. e = Error msg"
    if "(name, h) \<in> set (handlers browserUseConfig)" and "string_or_absent (bu_instruction a')"
      and "fst (h w' a' st') = Inl e" for name h e
    using that by (rule bu_handlers_typed_errors)
  have think: "fst (handleSequentialThinking now ta ss) \<noteq> Inl (Error msg)" for msg
    by (simp add: handleSequentialThinking_def Let_def split: option.splits)
  show ?thesis
    using pw pwt bu but think by (intro conjI ballI allI; clarify?) blast+
qed

theorem error_paths_only_sweep_witness:
  "(''playwright_click'', clickHandler) \<in> set (handlers playwrightConfig) \<and>
   string_or_absent (pw_value no_pw_args) \<and>
   fst (clickHandler \<lparr>pw_now = 1800001, valid_url = (\<lambda>u. True)\<rparr> no_pw_args
          [(''old'', expired_browser_session)]) = Inl (Error ''CSS selector is required for clicking'') \<and>
   snd (clickHandler \<lparr>pw_now = 1800001, valid_url = (\<lambda>u. True)\<rparr> no_pw_args
          [(''old'', expired_browser_session)]) =
     pw_cleanupOldSessions 1800001 [(''old'', expired_browser_session)] \<and>
   (''browseruse_navigate'', browserUseNavigateHandler) \<in> set (handlers browserUseConfig) \<and>
   string_or_absent (bu_instruction no_bu_args) \<and>
   fst (browserUseNavigateHandler \<lparr>bu_now = 10, pick = 0\<rparr> no_bu_args [(''old'', expired_use_session)]) =
     Inl (Error ''Either URL or natural language instruction is required'') \<and>
   list_all (\<lambda>(sid, s). \<not> bu_expired 10 s) [(''old'', expired_use_session)] \<and>
   snd (browserUseNavigateHandler \<lparr>bu_now = 10, pick = 0\<rparr> no_bu_args [(''old'', expired_use_session)]) =
     [(''old'', expired_use_session)]"
  using error_paths_only_sweep [of "\<lparr>pw_now = 1800001, valid_url = (\<lambda>u. True)\<rparr>" no_pw_args
      "[(''old'', expired_browser_session)]" "\<lparr>bu_now = 10, pick = 0\<rparr>" no_bu_args
      "[(''old'', expired_use_session)]"]
  by (simp add: playwrightConfig_def browserUseConfig_def clickHandler_def browserUseNavigateHandler_def
      no_pw_args_def no_bu_args_def bu_expired_def expired_use_session_def BU_SESSION_TIMEOUT_def
      bu_cleanupOldSessions_def string_or_absent_def)

subsection \<open>Expired sessions\<close>

lemma handle_other_expired:
  assumes "wf_store ss" and "map_of ss sid = Some s" and "thinking_expired now s"
    and "default_sessionId (arg_sessionId a) \<noteq> sid"
  shows "map_of (snd (handleSequentialThinking now a ss)) sid = None"
proof -
  let ?k = "default_sessionId (arg_sessionId a)"
  let ?v = "thinking_step now a (get_or_create_thinking now ?k ss)"
  have d: "distinct (map fst (AList.update ?k ?v ss))"
    using assms(1) by (simp add: wf_store_def AList.distinct_update)
  have l: "map_of (AList.update ?k ?v ss) sid = Some s"
    using assms(2,4) by (simp add: AList.update_conv')
  show ?thesis
    unfolding handle_store cleanup_filter
    by (rule map_of_filter_drop [OF d l]) (simp add: assms(3))
qed

text \<open>
  Claim C3 as stated fails for the reasoning tool-set, where the lookup of line 54 comes
  before the sweep of line 96: a session created at instant 0 and named again two hours
  later, with no call in between, is found, keeps its first step and is refreshed.
\<close>

theorem expiry_counterexample:
  "map (\<lambda>(sid, s). (sid, lastUpdated s, map thought (steps s)))
     (snd (handleSequentialThinking 0 (scenario_step 1 3 True ''a'') [])) =
     [(''s1'', 0, [Some ''a''])] \<and>
   SESSION_TIMEOUT < 7200000 - 0 \<and>
   map (\<lambda>(sid, s). (sid, lastUpdated s, map thought (steps s)))
     (snd (handleSequentialThinking 7200000 (scenario_step 2 3 True ''b'')
        (snd (handleSequentialThinking 0 (scenario_step 1 3 True ''a'') [])))) =
     [(''s1'', 7200000, [Some ''a'', Some ''b''])]"
  by (simp add: handle_store thinking_step_def scenario_step_def get_or_create_thinking_def make_step_def
      add_step_def is_branch_step_def update_metadata_def cleanupOldSessions_def SESSION_TIMEOUT_def)

text \<open>
  Claim C3, amended. Playwright (30 minutes) and browser-use (1 hour): a session that is
  expired when a handler is invoked is absent from the store that the handler looks up
  and lists, and every handler of the tool-set returns the same result and leaves the
  same store as it would if the session had been deleted beforehand. Reasoning
  (1 hour): the handler sweeps after it has looked up and written the session it was
  called with, so a call that names an expired session reuses and refreshes it, and a
  call that names another session removes it.
\<close>

theorem expired_sessions_invisible:
  "(wf_store st \<and> map_of st sid = Some s \<and> pw_expired (pw_now w) s \<longrightarrow>
      map_of (pw_cleanupOldSessions (pw_now w) st) sid = None \<and>
      (\<forall>(name, h) \<in> set (handlers playwrightConfig). h w a st = h w a (AList.delete sid st))) \<and>
   (wf_store st' \<and> map_of st' sid = Some s' \<and> bu_expired (bu_now w') s' \<longrightarrow>
      map_of (bu_cleanupOldSessions (bu_now w') st') sid = None \<and>
      (\<forall>(name, h) \<in> set (handlers browserUseConfig). h w' a' st' = h w' a' (AList.delete sid st'))) \<and>
   (wf_store ss \<and> map_of ss sid = Some s'' \<and> thinking_expired now s'' \<longrightarrow>
      (default_sessionId (arg_sessionId ta) = sid \<longrightarrow>
         map_of (snd (handleSequentialThinking now ta ss)) sid = Some (thinking_step now ta s'')) \<and>
      (default_sessionId (arg_sessionId ta) \<noteq> sid \<longrightarrow>
         map_of (snd (handleSequentialThinking now ta ss)) sid = None))"
proof (intro conjI impI ballI; (elim conjE)?)
  assume wf: "wf_store st" and l: "map_of st sid = Some s" and e: "pw_expired (pw_now w) s"
  show "map_of (pw_cleanupOldSessions (pw_now w) st) sid = None"
    unfolding pw_cleanup_filter using wf l e
    by (intro map_of_filter_drop [where v = s]) (simp_all add: wf_store_def)
  fix x assume x: "x \<in> set (handlers playwrightConfig)"
  have eq: "pw_cleanupOldSessions (pw_now w) (AList.delete sid st) = pw_cleanupOldSessions (pw_now w) st"
    unfolding pw_cleanup_filter using wf l e
    by (intro filter_delete_expired [where v = s]) (simp_all add: wf_store_def)
  obtain name h where xh: "x = (name, h)" by (cases x)
  have "h w a st = h w a (pw_cleanupOldSessions (pw_now w) st)"
    using pw_handlers_swept x xh by blast
  also have "\<dots> = h w a (AList.delete sid st)"
    using pw_handlers_swept [of name h w a "AList.delete sid st"] x xh eq by simp
  finally show "case x of (name, h) \<Rightarrow> h w a st = h w a (AList.delete sid st)"
    by (simp add: xh)
next
  assume wf: "wf_store st'" and l: "map_of st' sid = Some s'" and e: "bu_expired (bu_now w') s'"
  show "map_of (bu_cleanupOldSessions (bu_now w') st') sid = None"
    unfolding bu_cleanup_filter using wf l e
    by (intro map_of_filter_drop [where v = s']) (simp_all add: wf_store_def)
  fix x assume x: "x \<in> set (handlers browserUseConfig)"
  have eq: "bu_cleanupOldSessions (bu_now w') (AList.delete sid st') = bu_cleanupOldSessions (bu_now w') st'"
    unfolding bu_cleanup_filter using wf l e
    by (intro filter_delete_expired [where v = s']) (simp_all add: wf_store_def)
  obtain name h where xh: "x = (name, h)" by (cases x)
  have "h w' a' st' = h w' a' (bu_cleanupOldSessions (bu_now w') st')"
    using bu_handlers_swept x xh by blast
  also have "\<dots> = h w' a' (AList.delete sid st')"
    using bu_handlers_swept [of name h w' a' "AList.delete sid st'"] x xh eq by simp
  finally show "case x of (name, h) \<Rightarrow> h w' a' st' = h w' a' (AList.delete sid st')"
    by (simp add: xh)
next
  assume "map_of ss sid = Some s''" and "default_sessionId (arg_sessionId ta) = sid"
  then show "map_of (snd (handleSequentialThinking now ta ss)) sid = Some (thinking_step now ta s'')"
    using handle_lookup [of now ta ss] by (simp add: get_or_create_thinking_def)
next
  assume "wf_store ss" and "map_of ss sid = Some s''" and "thinking_expired now s''"
    and "default_sessionId (arg_sessionId ta) \<noteq> sid"
  then show "map_of (snd (handleSequentialThinking now ta ss)) sid = None"
    by (rule handle_other_expired)
qed

theorem expired_sessions_invisible_witness:
  "wf_store [(''old'', expired_browser_session)] \<and>
   map_of [(''old'', expired_browser_session)] ''old'' = Some expired_browser_session \<and>
   pw_expired 1800001 expired_browser_session \<and>
   map_of (pw_cleanupOldSessions 1800001 [(''old'', expired_browser_session)]) ''old'' = None \<and>
   (''playwright_click'', clickHandler) \<in> set (handlers playwrightConfig) \<and>
   clickHandler \<lparr>pw_now = 1800001, valid_url = (\<lambda>u. True)\<rparr>
       (no_pw_args\<lparr>pw_selector := Some ''#go'', pw_sessionId := Some ''old''\<rparr>)
       [(''old'', expired_browser_session)] =
     clickHandler \<lparr>pw_now = 1800001, valid_url = (\<lambda>u. True)\<rparr>
       (no_pw_args\<lparr>pw_selector := Some ''#go'', pw_sessionId := Some ''old''\<rparr>) [] \<and>
   wf_store [(''old'', expired_use_session)] \<and>
   map_of [(''old'', expired_use_session)] ''old'' = Some expired_use_session \<and>
   bu_expired 3600001 expired_use_session \<and>
   map_of (bu_cleanupOldSessions 3600001 [(''old'', expired_use_session)]) ''old'' = None \<and>
   (''browseruse_list_sessions'', listBrowserUseSessionsHandler) \<in> set (handlers browserUseConfig) \<and>
   listBrowserUseSessionsHandler \<lparr>bu_now = 3600001, pick = 0\<rparr> no_bu_args
       [(''old'', expired_use_session)] =
     listBrowserUseSessionsHandler \<lparr>bu_now = 3600001, pick = 0\<rparr> no_bu_args [] \<and>
   wf_store [(''s1'', expired_thinking_session)] \<and>
   map_of [(''s1'', expired_thinking_session)] ''s1'' = Some expired_thinking_session \<and>
   thinking_expired 3600001 expired_thinking_session \<and>
   map_of (snd (handleSequentialThinking 3600001 (scenario_step 2 3 True ''b'')
       [(''s1'', expired_thinking_session)])) ''s1'' =
     Some (thinking_step 3600001 (scenario_step 2 3 True ''b'') expired_thinking_session) \<and>
   map_of (snd (handleSequentialThinking 3600001 (branch_args None None (Some ''y''))
       [(''s1'', expired_thinking_session)])) ''s1'' = None"
  using expired_sessions_invisible [of "[(''old'', expired_browser_session)]" "''old''"
      expired_browser_session "\<lparr>pw_now = 1800001, valid_url = (\<lambda>u. True)\<rparr>"
      "no_pw_args\<lparr>pw_selector := Some ''#go'', pw_sessionId := Some ''old''\<rparr>"
      "[(''old'', expired_use_session)]" expired_use_session "\<lparr>bu_now = 3600001, pick = 0\<rparr>"
      no_bu_args "[(''old'', expired_thinking_session)]" expired_thinking_session 3600001
      "scenario_step 2 3 True ''b''"]
    expired_sessions_invisible [of "[]" "''s1''" expired_browser_session
      "\<lparr>pw_now = 1800001, valid_url = (\<lambda>u. True)\<rparr>" no_pw_args "[]" expired_use_session
      "\<lparr>bu_now = 3600001, pick = 0\<rparr>" no_bu_args "[(''s1'', expired_thinking_session)]"
      expired_thinking_session 3600001 "scenario_step 2 3 True ''b''"]
    expired_sessions_invisible [of "[]" "''s1''" expired_browser_session
      "\<lparr>pw_now = 1800001, valid_url = (\<lambda>u. True)\<rparr>" no_pw_args "[]" expired_use_session
      "\<lparr>bu_now = 3600001, pick = 0\<rparr>" no_bu_args "[(''s1'', expired_thinking_session)]"
      expired_thinking_session 3600001 "branch_args None None (Some ''y'')"]
  by (simp add: wf_store_def pw_expired_def bu_expired_def thinking_expired_def
      expired_browser_session_def expired_use_session_def expired_thinking_session_def
      PW_SESSION_TIMEOUT_def BU_SESSION_TIMEOUT_def SESSION_TIMEOUT_def playwrightConfig_def
      browserUseConfig_def scenario_step_def branch_args_def)

section \<open>The credential check\<close>

text \<open>The handler wraps the key into a header; the header has exactly two parts when the
  key contains no space, and then the second part is the key.\<close>

lemma split_on_no_sep: "c \<notin> set s \<Longrightarrow> split_on c s = [s]"
  by (induction s) auto

lemma split_on_nonempty: "split_on c s \<noteq> []"
  by (induction s) (auto split: list.splits)

lemma length_split_on: "length (split_on c s) = Suc (length (filter (\<lambda>x. x = c) s))"
  by (induction s) (auto split: list.splits simp: split_on_nonempty)

lemma split_on_one: "length (split_on c s) = 1 \<longleftrightarrow> c \<notin> set s"
  by (auto simp add: length_split_on filter_empty_conv)

lemma split_bearer: "split_on CHR '' '' (''Bearer '' @ k) = ''Bearer'' # split_on CHR '' '' k"
  using split_on_nonempty [of "CHR '' ''" k] by (simp split: list.splits)

lemmas split_bearer_cons = split_bearer [unfolded append.simps]

lemma validate_bearer:
  "auth_success (validateOpenAIKey (Some (''Bearer '' @ k))) \<longleftrightarrow>
     CHR '' '' \<notin> set k \<and> prefix ''sk-'' k \<and> 20 \<le> length k"
proof (cases "CHR '' '' \<in> set k")
  case True
  then have "length (split_on CHR '' '' k) \<noteq> Suc 0"
    using split_on_one [of "CHR '' ''" k] by simp
  then show ?thesis
    using True by (simp add: validateOpenAIKey_def split_bearer_cons Let_def del: split_on.simps)
next
  case False
  then show ?thesis
    by (auto simp add: validateOpenAIKey_def split_bearer_cons split_on_no_sep Let_def simp del: split_on.simps)
qed

lemmas validate_bearer_cons = validate_bearer [unfolded append.simps]

lemma check_apiKey_ok:
  "check_apiKey ko = Inr key \<longleftrightarrow>
     ko = Some key \<and> CHR '' '' \<notin> set key \<and> prefix ''sk-'' key \<and> 20 \<le> length key"
  by (cases ko) (auto simp: check_apiKey_def Let_def validate_bearer_cons split: if_splits)

lemma natural_ok_iff:
  "natural_ok a \<longleftrightarrow>
     (\<exists>instr key shown. present_json (bu_instruction a) = Some instr \<and>
        check_apiKey (bu_apiKey a) = Inr key \<and> interpreterResult instr = Inr shown)"
proof (cases "present_json (bu_instruction a)")
  case None
  then show ?thesis by (simp add: natural_ok_def)
next
  case (Some instr)
  then show ?thesis
    by (cases "check_apiKey (bu_apiKey a)"; cases "interpreterResult instr")
       (simp_all add: natural_ok_def)
qed

lemma natural_success_iff:
  "(\<exists>r. fst (naturalLanguageActionHandler w a st) = Inr r) \<longleftrightarrow> natural_ok a"
  unfolding natural_ok_iff
  by (auto simp: naturalLanguageActionHandler_def Let_def split: option.splits sum.splits)

text \<open>A call whose credential is rejected throws before the lookup, whatever the
  instruction is.\<close>

lemma natural_bad_key:
  assumes "\<And>key. check_apiKey (bu_apiKey a) \<noteq> Inr key"
  shows "\<exists>e. naturalLanguageActionHandler w a st = (Inl e, bu_cleanupOldSessions (bu_now w) st)"
proof -
  obtain e where "check_apiKey (bu_apiKey a) = Inl e"
    using assms by (cases "check_apiKey (bu_apiKey a)") auto
  then show ?thesis
    by (auto simp: naturalLanguageActionHandler_def Let_def split: option.splits)
qed

text \<open>A call that passes the checks leaves the session it names in the store, with the
  credential preview of the stored session or, for a new session, of the key of the
  call; this holds also when the interpreter object throws afterwards.\<close>

lemma natural_success_store:
  assumes "present_json (bu_instruction a) = Some instr" and "check_apiKey (bu_apiKey a) = Inr key"
  shows "\<exists>s'. snd (naturalLanguageActionHandler w a st) =
            AList.update (default_sessionId (bu_sessionId a)) s' (bu_cleanupOldSessions (bu_now w) st) \<and>
          apiKey s' =
            (case map_of (bu_cleanupOldSessions (bu_now w) st) (default_sessionId (bu_sessionId a)) of
               None \<Rightarrow> take 10 key @ ''...'' | Some s \<Rightarrow> apiKey s)"
proof (cases "interpreterResult instr")
  case (Inl e)
  with assms show ?thesis
    by (force simp add: naturalLanguageActionHandler_def Let_def split: option.splits)
next
  case (Inr shown)
  with assms show ?thesis
    by (force simp add: naturalLanguageActionHandler_def Let_def split: option.splits)
qed

text \<open>
  Claim C8 as stated fails in its last part: a credential with the prefix and the
  minimum length that contains a space does not proceed, because the header built from
  it splits into three parts.
\<close>

theorem key_with_space_counterexample:
  "key_shape_ok ''sk-0123456789 abcdefghij'' \<and>
   naturalLanguageActionHandler \<lparr>bu_now = 0, pick = 0\<rparr>
     \<lparr>bu_instruction = Some (JStr ''click the login button''), bu_url = None, bu_sessionId = None,
      bu_apiKey = Some ''sk-0123456789 abcdefghij'', bu_limit = None\<rparr> [] =
     (Inl (Error ''Authentication failed: Invalid Authorization format. Required format: Bearer sk-...''), [])"
  by (simp add: key_shape_ok_def naturalLanguageActionHandler_def check_apiKey_def validateOpenAIKey_def
      bu_cleanupOldSessions_def Let_def)

text \<open>
  Claim C8, amended: for every input whose \<open>apiKey\<close> is absent or empty, does not start
  with \<open>sk-\<close>, is shorter than 20 characters or contains a space,
  \<open>browseruse_natural_action\<close> fails with an error, creates no session and writes no
  field of a session: the store after the call is the store before it without the
  expired sessions. No external service is part of the check: every call with a
  non-empty instruction string and an \<open>apiKey\<close> that starts with \<open>sk-\<close>, has at least
  20 characters and contains no space returns normally.
\<close>

theorem credential_shape_check:
  "((present (bu_apiKey a) = None \<or>
     (\<exists>k. bu_apiKey a = Some k \<and> (\<not> prefix ''sk-'' k \<or> length k < 20 \<or> CHR '' '' \<in> set k))) \<longrightarrow>
      (\<exists>e. fst (naturalLanguageActionHandler w a st) = Inl e) \<and>
      snd (naturalLanguageActionHandler w a st) = bu_cleanupOldSessions (bu_now w) st) \<and>
   (bu_instruction a = Some (JStr i) \<and> i \<noteq> [] \<and> bu_apiKey a = Some k' \<and> prefix ''sk-'' k' \<and>
    20 \<le> length k' \<and> CHR '' '' \<notin> set k' \<longrightarrow>
      (\<exists>r. fst (naturalLanguageActionHandler w a st) = Inr r))"
proof (intro conjI impI)
  assume bad: "present (bu_apiKey a) = None \<or>
     (\<exists>k. bu_apiKey a = Some k \<and> (\<not> prefix ''sk-'' k \<or> length k < 20 \<or> CHR '' '' \<in> set k))"
  have "check_apiKey (bu_apiKey a) \<noteq> Inr key" for key
  proof
    assume "check_apiKey (bu_apiKey a) = Inr key"
    then have "bu_apiKey a = Some key" "CHR '' '' \<notin> set key" "prefix ''sk-'' key" "20 \<le> length key"
      by (simp_all add: check_apiKey_ok)
    with bad show False by (auto split: if_splits)
  qed
  then obtain e where e: "naturalLanguageActionHandler w a st = (Inl e, bu_cleanupOldSessions (bu_now w) st)"
    using natural_bad_key by blast
  then show "\<exists>e. fst (naturalLanguageActionHandler w a st) = Inl e"
    by simp
  from e show "snd (naturalLanguageActionHandler w a st) = bu_cleanupOldSessions (bu_now w) st"
    by simp
next
  assume ok: "bu_instruction a = Some (JStr i) \<and> i \<noteq> [] \<and> bu_apiKey a = Some k' \<and> prefix ''sk-'' k' \<and>
      20 \<le> length k' \<and> CHR '' '' \<notin> set k'"
  then have "check_apiKey (bu_apiKey a) = Inr k'"
    by (simp add: check_apiKey_ok)
  with ok have "natural_ok a"
    by (simp add: natural_ok_def interpreterResult_string)
  then show "\<exists>r. fst (naturalLanguageActionHandler w a st) = Inr r"
    by (simp add: natural_success_iff)
qed

theorem credential_shape_check_witness:
  "present (Some ''sk-short'') \<noteq> None \<and> length ''sk-short'' < 20 \<and>
   (\<exists>e. fst (naturalLanguageActionHandler \<lparr>bu_now = 5, pick = 1\<rparr>
      (no_bu_args\<lparr>bu_instruction := Some (JStr ''go''), bu_apiKey := Some ''sk-short''\<rparr>) []) = Inl e) \<and>
   snd (naturalLanguageActionHandler \<lparr>bu_now = 5, pick = 1\<rparr>
      (no_bu_args\<lparr>bu_instruction := Some (JStr ''go''), bu_apiKey := Some ''sk-short''\<rparr>) []) = [] \<and>
   prefix ''sk-'' good_key \<and> 20 \<le> length good_key \<and> CHR '' '' \<notin> set good_key \<and>
   (\<exists>r. fst (naturalLanguageActionHandler \<lparr>bu_now = 5, pick = 1\<rparr>
      (no_bu_args\<lparr>bu_instruction := Some (JStr ''go''), bu_apiKey := Some good_key\<rparr>) []) = Inr r)"
  using credential_shape_check [where a = "no_bu_args\<lparr>bu_instruction := Some (JStr ''go''), bu_apiKey := Some ''sk-short''\<rparr>"
      and w = "\<lparr>bu_now = 5, pick = 1\<rparr>" and st = "[]" and k' = good_key and i = "''go''"]
    credential_shape_check [where a = "no_bu_args\<lparr>bu_instruction := Some (JStr ''go''), bu_apiKey := Some good_key\<rparr>"
      and w = "\<lparr>bu_now = 5, pick = 1\<rparr>" and st = "[]" and k' = good_key and i = "''go''"]
  by (simp add: bu_cleanupOldSessions_def no_bu_args_def good_key_def)

section \<open>Sessions are created by the natural-language action only\<close>

lemma bu_other_handlers_keys:
  assumes "(name, h) \<in> set (handlers browserUseConfig)" and "name \<noteq> ''browseruse_natural_action''"
  shows "fst ` set (snd (h w a st)) \<subseteq> fst ` set st"
proof -
  have upd: "fst ` set (AList.update k v' (bu_cleanupOldSessions now st)) \<subseteq> fst ` set st"
    if "map_of (bu_cleanupOldSessions now st) k = Some v" for k v v' now
    using keys_update_present [OF that, of v'] bu_cleanup_keys [of now st] by simp
  from assms consider "h = browserUseNavigateHandler" | "h = getConversationHistoryHandler"
    | "h = listBrowserUseSessionsHandler"
    by (auto simp: browserUseConfig_def)
  then show ?thesis
  proof cases
    case 1
    then show ?thesis
      using upd bu_cleanup_keys [of "bu_now w" st]
      by (simp add: browserUseNavigateHandler_def Let_def split: option.splits sum.splits)
  next
    case 2
    then show ?thesis
      using upd bu_cleanup_keys [of "bu_now w" st]
      by (simp add: getConversationHistoryHandler_def Let_def split: option.splits)
  next
    case 3
    then show ?thesis
      using bu_cleanup_keys [of "bu_now w" st]
      by (simp add: listBrowserUseSessionsHandler_def Let_def)
  qed
qed

text \<open>
  Claim C9 as stated fails in the error it names: for a session id that the store does
  not hold, a call without \<open>url\<close> and \<open>instruction\<close> is rejected by the first check of
  the handler, with another message than \<open>Session ... not found\<close>.
\<close>

theorem navigate_other_error_counterexample:
  "map_of ([] :: BrowserUseSession store) ''fresh'' = None \<and>
   browserUseNavigateHandler \<lparr>bu_now = 0, pick = 0\<rparr>
     \<lparr>bu_instruction = None, bu_url = None, bu_sessionId = Some ''fresh'', bu_apiKey = None,
      bu_limit = None\<rparr> [] =
     (Inl (Error ''Either URL or natural language instruction is required''), [])"
  by (simp add: browserUseNavigateHandler_def bu_cleanupOldSessions_def)

text \<open>
  Claim C9, amended: for every input whose \<open>sessionId\<close> (the default id included) is not
  in the browser-use store, \<open>browseruse_navigate\<close> throws and the store gains no entry
  (it is the store before the call without the expired sessions); the error is the
  \<open>Session ... not found\<close> error whenever the call passes the checks that come first
  (a \<open>url\<close> or an \<open>instruction\<close>, and a well-shaped \<open>apiKey\<close>), and the error of the
  failing check otherwise. No handler of the tool-set other than
  \<open>browseruse_natural_action\<close>, and not the health check, adds a session id to the
  store, whereas \<open>playwright_navigate\<close> with a valid URL leaves a session under the
  id it was called with.
\<close>

theorem navigate_never_creates:
  assumes "map_of st (default_sessionId (bu_sessionId a)) = None"
  shows "(\<exists>e. fst (browserUseNavigateHandler w a st) = Inl e) \<and>
     snd (browserUseNavigateHandler w a st) = bu_cleanupOldSessions (bu_now w) st \<and>
     fst ` set (snd (browserUseNavigateHandler w a st)) \<subseteq> fst ` set st \<and>
     ((present (bu_url a) \<noteq> None \<or> present_json (bu_instruction a) \<noteq> None) \<and> bu_apiKey a = Some key \<and>
       prefix ''sk-'' key \<and> 20 \<le> length key \<and> CHR '' '' \<notin> set key \<longrightarrow>
         fst (browserUseNavigateHandler w a st) =
           Inl (Error (''Session '' @ apostrophe @ default_sessionId (bu_sessionId a) @ apostrophe @
                  '' not found. Please start with a natural language action first.''))) \<and>
     (\<forall>(name, h) \<in> set (handlers browserUseConfig).
        name \<noteq> ''browseruse_natural_action'' \<longrightarrow> fst ` set (snd (h w a st)) \<subseteq> fst ` set st) \<and>
     fst ` set (snd (bu_getHealthInfo (bu_now w) st)) \<subseteq> fst ` set st \<and>
     (present (pw_url pa) = Some u \<and> valid_url pw u \<longrightarrow>
        map_of (snd (navigateHandler pw pa pst)) (default_sessionId (pw_sessionId pa)) \<noteq> None)"
proof -
  let ?sid = "default_sessionId (bu_sessionId a)"
  have absent: "map_of (bu_cleanupOldSessions (bu_now w) st) ?sid = None"
    using assms by (simp add: bu_cleanupOldSessions_def map_of_filter_absent)
  have err: "\<exists>e. fst (browserUseNavigateHandler w a st) = Inl e"
    using absent by (simp add: browserUseNavigateHandler_def Let_def split: sum.splits)
  then have store: "snd (browserUseNavigateHandler w a st) = bu_cleanupOldSessions (bu_now w) st"
    using navigate_error_store by blast
  have keys: "fst ` set (snd (browserUseNavigateHandler w a st)) \<subseteq> fst ` set st"
    unfolding store by (rule bu_cleanup_keys)
  have msg: "fst (browserUseNavigateHandler w a st) =
           Inl (Error (''Session '' @ apostrophe @ ?sid @ apostrophe @
                  '' not found. Please start with a natural language action first.''))"
    if "present (bu_url a) \<noteq> None \<or> present_json (bu_instruction a) \<noteq> None" and "bu_apiKey a = Some key"
      and "prefix ''sk-'' key" and "20 \<le> length key" and "CHR '' '' \<notin> set key"
  proof -
    have "check_apiKey (bu_apiKey a) = Inr key"
      using that by (simp add: check_apiKey_ok)
    then show ?thesis
      using that(1) absent by (auto simp add: browserUseNavigateHandler_def Let_def)
  qed
  have others: "\<forall>(name, h) \<in> set (handlers browserUseConfig).
        name \<noteq> ''browseruse_natural_action'' \<longrightarrow> fst ` set (snd (h w a st)) \<subseteq> fst ` set st"
    using bu_other_handlers_keys by blast
  have pwnav: "map_of (snd (navigateHandler pw pa pst)) (default_sessionId (pw_sessionId pa)) \<noteq> None"
    if "present (pw_url pa) = Some u" and "valid_url pw u"
    using that by (simp add: navigateHandler_def Let_def AList.update_conv')
  have health: "fst ` set (snd (bu_getHealthInfo (bu_now w) st)) \<subseteq> fst ` set st"
    using bu_cleanup_keys [of "bu_now w" st] by (simp add: bu_getHealthInfo_def Let_def)
  show ?thesis
    using err store keys msg others health pwnav by blast
qed

theorem navigate_never_creates_witness:
  "map_of ([] :: BrowserUseSession store) (default_sessionId None) = None \<and>
   browserUseNavigateHandler \<lparr>bu_now = 5, pick = 1\<rparr>
      (no_bu_args\<lparr>bu_url := Some ''https://example.com'', bu_apiKey := Some good_key\<rparr>) [] =
     (Inl (Error (''Session '' @ apostrophe @ ''default'' @ apostrophe @
        '' not found. Please start with a natural language action first.'')), []) \<and>
   map_of (snd (navigateHandler \<lparr>pw_now = 5, valid_url = (\<lambda>u. True)\<rparr>
      (no_pw_args\<lparr>pw_url := Some ''https://example.com''\<rparr>) [])) ''default'' \<noteq> None"
  using navigate_never_creates [of "[]"
      "no_bu_args\<lparr>bu_url := Some ''https://example.com'', bu_apiKey := Some good_key\<rparr>"
      "\<lparr>bu_now = 5, pick = 1\<rparr>" good_key
      "no_pw_args\<lparr>pw_url := Some ''https://example.com''\<rparr>" "''https://example.com''"
      "\<lparr>pw_now = 5, valid_url = (\<lambda>u. True)\<rparr>" "[]"]
  by (simp add: no_bu_args_def no_pw_args_def good_key_def bu_cleanupOldSessions_def prod_eq_iff)

section \<open>The bounded conversation history\<close>

text \<open>The cap of lines 120 to 122 keeps the last fifty entries, and capping after every
  push is capping once at the end.\<close>

lemma slice_cap: "(if length xs > 50 then slice_from (- 50) xs else xs) = cap50 xs"
  by (simp add: slice_from_def cap50_def nat_diff_distrib' max_def)

lemma cap50_snoc: "cap50 (cap50 xs @ [x]) = cap50 (xs @ [x])"
proof -
  have "length xs - (length xs - 50 + 49) + (length xs - 50) = length xs - 49"
    by arith
  then show ?thesis
    by (simp add: cap50_def)
qed

lemma cap50_append: "cap50 (cap50 xs @ ys) = cap50 (xs @ ys)"
proof (induction ys arbitrary: xs)
  case Nil
  then show ?case by (simp add: cap50_def)
next
  case (Cons y ys)
  have "cap50 (cap50 xs @ y # ys) = cap50 ((cap50 xs @ [y]) @ ys)" by simp
  also have "\<dots> = cap50 (cap50 (cap50 xs @ [y]) @ ys)" by (simp only: Cons.IH)
  also have "\<dots> = cap50 (cap50 (xs @ [y]) @ ys)" by (simp only: cap50_snoc)
  also have "\<dots> = cap50 ((xs @ [y]) @ ys)" by (simp only: Cons.IH)
  finally show ?case by simp
qed

lemma length_cap50: "length (cap50 xs) = min (length xs) 50"
  by (simp add: cap50_def)

lemma cap50_id: "length xs \<le> 50 \<Longrightarrow> cap50 xs = xs"
  by (simp add: cap50_def)

lemma natural_history:
  assumes "natural_ok a" and "default_sessionId (bu_sessionId a) = sid"
  shows "session_history (snd (naturalLanguageActionHandler w a st)) sid =
           cap50 (session_history (bu_cleanupOldSessions (bu_now w) st) sid @ [submitted_entry (w, a)])"
    and "\<exists>s. map_of (snd (naturalLanguageActionHandler w a st)) sid = Some s \<and> lastUsed s = bu_now w"
proof -
  from assms(1) obtain instr key shown where i: "present_json (bu_instruction a) = Some instr"
    and k: "check_apiKey (bu_apiKey a) = Inr key" and r: "interpreterResult instr = Inr shown"
    by (auto simp: natural_ok_iff)
  have sub: "submitted_entry (w, a) = make_entry w instr shown"
    using present_json_Some [OF i] interpreterResult_shown [OF r] by (simp add: submitted_entry_def)
  show "session_history (snd (naturalLanguageActionHandler w a st)) sid =
           cap50 (session_history (bu_cleanupOldSessions (bu_now w) st) sid @ [submitted_entry (w, a)])"
    using i k r assms(2)
    by (auto simp: naturalLanguageActionHandler_def Let_def session_history_def sub
        slice_cap AList.update_conv' split: option.splits)
  show "\<exists>s. map_of (snd (naturalLanguageActionHandler w a st)) sid = Some s \<and> lastUsed s = bu_now w"
    using i k r assms(2)
    by (auto simp: naturalLanguageActionHandler_def Let_def AList.update_conv' split: option.splits)
qed

lemma history_survives:
  assumes "map_of st sid = Some s" and "now - lastUsed s \<le> BU_SESSION_TIMEOUT"
  shows "session_history (bu_cleanupOldSessions now st) sid = session_history st sid"
proof -
  have "map_of (bu_cleanupOldSessions now st) sid = Some s"
    unfolding bu_cleanup_filter using assms
    by (intro map_of_filter_keep) (simp_all add: bu_expired_def)
  then show ?thesis
    using assms(1) by (simp add: session_history_def)
qed

lemma history_absent:
  "map_of st sid = None \<Longrightarrow> session_history (bu_cleanupOldSessions now st) sid = []"
  by (simp add: session_history_def bu_cleanupOldSessions_def map_of_filter_absent)

lemma run_natural_ok:
  "fst (run_natural calls st) \<Longrightarrow> list_all (\<lambda>(w, a). natural_ok a) calls"
proof (induction calls arbitrary: st)
  case Nil
  then show ?case by simp
next
  case (Cons c calls)
  obtain w a where c: "c = (w, a)" by (cases c)
  obtain r st' where h: "naturalLanguageActionHandler w a st = (r, st')"
    by (cases "naturalLanguageActionHandler w a st")
  show ?case
  proof (cases r)
    case (Inl e)
    with Cons.prems c h show ?thesis by simp
  next
    case (Inr p)
    with Cons.prems c h have "fst (run_natural calls st')" by simp
    then have "list_all (\<lambda>(w, a). natural_ok a) calls" by (rule Cons.IH)
    moreover have "natural_ok a"
      using natural_success_iff [of w a st] h Inr by simp
    ultimately show ?thesis by (simp add: c)
  qed
qed

lemma run_natural_succeeds:
  "list_all (\<lambda>(w, a). natural_ok a) calls \<Longrightarrow> fst (run_natural calls st)"
proof (induction calls arbitrary: st)
  case Nil
  then show ?case by simp
next
  case (Cons c calls)
  obtain w a where c: "c = (w, a)" by (cases c)
  from Cons.prems have a: "natural_ok a" and rest: "list_all (\<lambda>(w, a). natural_ok a) calls"
    by (simp_all add: c)
  obtain r where r: "fst (naturalLanguageActionHandler w a st) = Inr r"
    using natural_success_iff [of w a st] a by blast
  then show ?case
    using Cons.IH [OF rest] by (cases "naturalLanguageActionHandler w a st") (simp add: c)
qed

lemma run_natural_store:
  "snd (run_natural ((w, a) # calls) st) = snd (run_natural calls (snd (naturalLanguageActionHandler w a st)))"
  by (cases "naturalLanguageActionHandler w a st") (auto split: sum.splits)

lemma run_natural_history:
  assumes "names_session sid calls" and "list_all (\<lambda>(w, a). natural_ok a) calls"
    and "map_of st sid = Some s" and "within_timeout (lastUsed s # map (\<lambda>(w, a). bu_now w) calls)"
    and "length (conversationHistory s) \<le> 50"
  shows "session_history (snd (run_natural calls st)) sid =
           cap50 (session_history st sid @ map submitted_entry calls)"
  using assms
proof (induction calls arbitrary: st s)
  case Nil
  then show ?case by (simp add: session_history_def cap50_id)
next
  case (Cons c calls)
  obtain w a where c: "c = (w, a)" by (cases c)
  from Cons.prems(1,2) have a: "natural_ok a" "default_sessionId (bu_sessionId a) = sid"
    and rest: "names_session sid calls" "list_all (\<lambda>(w, a). natural_ok a) calls"
    by (simp_all add: c names_session_def)
  from Cons.prems(4) have gap: "bu_now w - lastUsed s \<le> BU_SESSION_TIMEOUT"
    and chain: "within_timeout (bu_now w # map (\<lambda>(w, a). bu_now w) calls)"
    by (simp_all add: c)
  let ?st = "snd (naturalLanguageActionHandler w a st)"
  obtain s' where s': "map_of ?st sid = Some s'" "lastUsed s' = bu_now w"
    using natural_history(2) [OF a] by blast
  have h: "session_history ?st sid = cap50 (session_history st sid @ [submitted_entry (w, a)])"
    using natural_history(1) [OF a, of w st] history_survives [OF Cons.prems(3) gap] by simp
  then have len: "length (conversationHistory s') \<le> 50"
    using s'(1) by (simp add: session_history_def length_cap50)
  have "session_history (snd (run_natural calls ?st)) sid =
          cap50 (session_history ?st sid @ map submitted_entry calls)"
    using Cons.IH [OF rest s'(1) _ len] chain s'(2) by simp
  also have "\<dots> = cap50 ((session_history st sid @ [submitted_entry (w, a)]) @ map submitted_entry calls)"
    unfolding h by (rule cap50_append)
  finally show ?case
    by (simp add: c run_natural_store del: run_natural.simps)
qed

lemma within_timeout_steps:
  "within_timeout (map int [m..<n])"
proof (induction "n - m" arbitrary: m)
  case 0
  then show ?case by simp
next
  case (Suc k)
  then have m: "m < n" and k: "k = n - Suc m" by simp_all
  show ?case
  proof (cases "Suc m < n")
    case True
    then have "[m..<n] = m # Suc m # [Suc (Suc m)..<n]"
      by (simp add: upt_conv_Cons)
    moreover have "within_timeout (map int [Suc m..<n])"
      using Suc.hyps(1) [OF k] .
    ultimately show ?thesis
      using True by (simp add: upt_conv_Cons BU_SESSION_TIMEOUT_def)
  next
    case False
    with m have "[m..<n] = [m]" by (simp add: upt_conv_Cons)
    then show ?thesis by simp
  qed
qed

text \<open>
  Claim C4: after any sequence of \<open>n\<close> successful \<open>browseruse_natural_action\<close> calls
  on one session (the calls name the session, it is not in the store before the first
  call, and no two consecutive calls are further apart than the timeout, so that it is
  not swept in between), its \<open>conversationHistory\<close> holds exactly \<open>min n 50\<close> entries,
  the last \<open>min n 50\<close> submitted ones in their submission order; sixty calls leave the
  last fifty.
\<close>

theorem bounded_history:
  assumes "names_session sid calls"
    and "fst (run_natural calls st)"
    and "map_of st sid = None"
    and "within_timeout (map (\<lambda>(w, a). bu_now w) calls)"
  shows "session_history (snd (run_natural calls st)) sid =
           drop (length calls - 50) (map submitted_entry calls)
       \<and> length (session_history (snd (run_natural calls st)) sid) = min (length calls) 50"
proof (cases calls)
  case Nil
  with assms(3) show ?thesis by (simp add: session_history_def)
next
  case (Cons c rest)
  obtain w a where c: "c = (w, a)" by (cases c)
  have ok: "list_all (\<lambda>(w, a). natural_ok a) calls"
    using assms(2) by (rule run_natural_ok)
  then have a: "natural_ok a" and okr: "list_all (\<lambda>(w, a). natural_ok a) rest"
    by (simp_all add: Cons c)
  from assms(1) have sid: "default_sessionId (bu_sessionId a) = sid" and nr: "names_session sid rest"
    by (simp_all add: Cons c names_session_def)
  let ?st = "snd (naturalLanguageActionHandler w a st)"
  obtain s' where s': "map_of ?st sid = Some s'" "lastUsed s' = bu_now w"
    using natural_history(2) [OF a sid] by blast
  have h: "session_history ?st sid = cap50 [submitted_entry (w, a)]"
    using natural_history(1) [OF a sid, of w st] history_absent [OF assms(3)] by simp
  then have len: "length (conversationHistory s') \<le> 50"
    using s'(1) by (simp add: session_history_def length_cap50)
  have chain: "within_timeout (lastUsed s' # map (\<lambda>(w, a). bu_now w) rest)"
    using assms(4) by (simp add: Cons c s'(2))
  have "session_history (snd (run_natural rest ?st)) sid =
          cap50 (session_history ?st sid @ map submitted_entry rest)"
    by (rule run_natural_history [OF nr okr s'(1) chain len])
  also have "\<dots> = cap50 ([submitted_entry (w, a)] @ map submitted_entry rest)"
    unfolding h by (rule cap50_append)
  finally have "session_history (snd (run_natural calls st)) sid = cap50 (map submitted_entry calls)"
    by (simp add: Cons c run_natural_store del: run_natural.simps)
  then show ?thesis
    by (simp add: cap50_def)
qed

theorem bounded_history_witness:
  "names_session ''default'' sixty_calls \<and> fst (run_natural sixty_calls []) \<and>
   map_of ([] :: BrowserUseSession store) ''default'' = None \<and>
   within_timeout (map (\<lambda>(w, a). bu_now w) sixty_calls) \<and>
   length sixty_calls = 60 \<and>
   length (session_history (snd (run_natural sixty_calls [])) ''default'') = 50 \<and>
   session_history (snd (run_natural sixty_calls [])) ''default'' =
     drop 10 (map submitted_entry sixty_calls)"
proof -
  have key: "check_apiKey (Some good_key) = Inr good_key"
    by (simp add: check_apiKey_ok good_key_def)
  have h1: "names_session ''default'' sixty_calls"
    by (simp add: names_session_def sixty_calls_def list_all_iff no_bu_args_def)
  have "list_all (\<lambda>(w, a). natural_ok a) sixty_calls"
    using key by (simp add: sixty_calls_def list_all_iff natural_ok_def no_bu_args_def
        interpreterResult_string)
  then have h2: "fst (run_natural sixty_calls [])"
    by (rule run_natural_succeeds)
  have h3: "map_of ([] :: BrowserUseSession store) ''default'' = None" by simp
  have "map (\<lambda>(w, a). bu_now w) sixty_calls = map int [0..<60]"
    by (simp add: sixty_calls_def)
  then have h4: "within_timeout (map (\<lambda>(w, a). bu_now w) sixty_calls)"
    by (simp only: within_timeout_steps)
  have len: "length sixty_calls = 60" by (simp add: sixty_calls_def)
  show ?thesis
    using bounded_history [OF h1 h2 h3 h4] h1 h2 h4 len by simp
qed

section \<open>The stored credential\<close>

lemma supplied_keys_snoc:
  "set (supplied_keys (calls @ [c]) sid) =
     set (supplied_keys calls sid) \<union> (case supplied_key sid c of None \<Rightarrow> {} | Some k \<Rightarrow> {k})"
  by (auto simp: supplied_keys_def List.map_filter_def split: option.splits)

lemma key_preview_mono:
  "key_preview_ok calls e \<Longrightarrow> key_preview_ok (calls @ [c]) e"
  by (auto simp: key_preview_ok_def list_ex_iff supplied_keys_snoc)

lemma key_preview_same_key:
  "key_preview_ok calls (sid, s) \<Longrightarrow> apiKey s' = apiKey s \<Longrightarrow> key_preview_ok calls (sid, s')"
  by (simp add: key_preview_ok_def)

lemma truncated_differs:
  assumes "20 \<le> length k"
  shows "length (take 10 k @ ''...'') = 13" and "take 10 k @ ''...'' \<noteq> k"
proof -
  show l: "length (take 10 k @ ''...'') = 13" using assms by simp
  show "take 10 k @ ''...'' \<noteq> k"
  proof
    assume "take 10 k @ ''...'' = k"
    then have "length (take 10 k @ ''...'') = length k" by simp
    with l assms show False by simp
  qed
qed

lemma key_preview_new:
  assumes "check_apiKey (bu_apiKey a) = Inr key" and "apiKey s = take 10 key @ ''...''"
  shows "key_preview_ok (calls @ [CallTool ''browseruse_natural_action'' w a])
           (default_sessionId (bu_sessionId a), s)"
proof -
  from assms(1) have k: "prefix ''sk-'' key" "20 \<le> length key"
    by (simp_all add: check_apiKey_ok)
  have "key \<in> set (supplied_keys (calls @ [CallTool ''browseruse_natural_action'' w a])
                     (default_sessionId (bu_sessionId a)))"
    using assms(1) by (simp add: supplied_keys_snoc)
  then show ?thesis
    using k assms(2) truncated_differs [OF k(2)]
    by (auto simp: key_preview_ok_def list_ex_iff simp del: append.simps)
qed

text \<open>Every entry of the store after a call either was in the store before, possibly with
  other fields but with the same \<open>apiKey\<close>, or is the session that a
  \<open>browseruse_natural_action\<close> call has just created from the credential of the call.\<close>

lemma bu_exec_entries:
  assumes "e \<in> set (bu_exec c st)"
  shows "(\<exists>s. (fst e, s) \<in> set st \<and> apiKey (snd e) = apiKey s) \<or>
         (\<exists>w a key. c = CallTool ''browseruse_natural_action'' w a \<and>
            fst e = default_sessionId (bu_sessionId a) \<and>
            check_apiKey (bu_apiKey a) = Inr key \<and> apiKey (snd e) = take 10 key @ ''...'')"
proof (cases c)
  case (HealthInfo now)
  then have "bu_exec c st = bu_cleanupOldSessions now st"
    by (simp add: bu_getHealthInfo_def Let_def)
  with assms have "(fst e, snd e) \<in> set st"
    using bu_cleanup_subset [of now st] by auto
  then show ?thesis by blast
next
  case (CallTool name w a)
  let ?st1 = "bu_cleanupOldSessions (bu_now w) st"
  let ?sid = "default_sessionId (bu_sessionId a)"
  have old: "(\<exists>s. (fst e, s) \<in> set st \<and> apiKey (snd e) = apiKey s)" if "e \<in> set ?st1"
  proof -
    from that have "(fst e, snd e) \<in> set st"
      using bu_cleanup_subset [of "bu_now w" st] by auto
    then show ?thesis by blast
  qed
  have upd: "(\<exists>s. (fst e, s) \<in> set st \<and> apiKey (snd e) = apiKey s)"
    if "e \<in> set (AList.update ?sid s' ?st1)" and "map_of ?st1 ?sid = Some s" and "apiKey s' = apiKey s"
    for s' s
  proof (cases "e = (?sid, s')")
    case True
    from that(2) have "(?sid, s) \<in> set st"
      using bu_cleanup_subset [of "bu_now w" st] by (auto dest: map_of_SomeD)
    with True that(3) show ?thesis by auto
  next
    case False
    with that(1) set_update_subset [of ?sid s' ?st1] have "e \<in> set ?st1" by auto
    then show ?thesis by (rule old)
  qed
  consider (unknown) "map_of (handlers browserUseConfig) name = None"
    | (natural) "name = ''browseruse_natural_action''"
    | (navigate) "name = ''browseruse_navigate''"
    | (history) "name = ''browseruse_conversation_history''"
    | (list) "name = ''browseruse_list_sessions''"
    by (cases "name = ''browseruse_natural_action''"; cases "name = ''browseruse_navigate''";
        cases "name = ''browseruse_conversation_history''"; cases "name = ''browseruse_list_sessions''")
       (simp_all add: browserUseConfig_def)
  then show ?thesis
  proof cases
    case unknown
    with CallTool have "bu_exec c st = st" by simp
    with assms have "(fst e, snd e) \<in> set st" by simp
    then show ?thesis by blast
  next
    case natural
    with assms CallTool have e: "e \<in> set (snd (naturalLanguageActionHandler w a st))"
      by (simp add: browserUseConfig_def)
    show ?thesis
    proof (cases "\<exists>instr key. present_json (bu_instruction a) = Some instr \<and>
        check_apiKey (bu_apiKey a) = Inr key")
      case False
      then have "snd (naturalLanguageActionHandler w a st) = ?st1"
        by (auto simp: naturalLanguageActionHandler_def Let_def split: option.splits sum.splits)
      with e old show ?thesis by simp
    next
      case True
      then obtain instr key where i: "present_json (bu_instruction a) = Some instr"
        and k: "check_apiKey (bu_apiKey a) = Inr key"
        by blast
      obtain s' where st': "snd (naturalLanguageActionHandler w a st) = AList.update ?sid s' ?st1"
        and key': "apiKey s' =
           (case map_of ?st1 ?sid of None \<Rightarrow> take 10 key @ ''...'' | Some s \<Rightarrow> apiKey s)"
        using natural_success_store [OF i k] by blast
      show ?thesis
      proof (cases "map_of ?st1 ?sid")
        case None
        show ?thesis
        proof (cases "e = (?sid, s')")
          case True
          with None key' k CallTool natural show ?thesis by auto
        next
          case False
          with e st' set_update_subset [of ?sid s' ?st1] have "e \<in> set ?st1" by auto
          then show ?thesis using old by blast
        qed
      next
        case (Some s)
        from e st' have "e \<in> set (AList.update ?sid s' ?st1)" by simp
        moreover from key' Some have "apiKey s' = apiKey s" by simp
        ultimately show ?thesis
          using upd Some by blast
      qed
    qed
  next
    case navigate
    with assms CallTool have e: "e \<in> set (snd (browserUseNavigateHandler w a st))"
      by (simp add: browserUseConfig_def)
    show ?thesis
    proof (cases "fst (browserUseNavigateHandler w a st)")
      case (Inl err)
      then have "snd (browserUseNavigateHandler w a st) = ?st1"
        by (rule navigate_error_store)
      with e old show ?thesis by simp
    next
      case (Inr r)
      then obtain s where "map_of ?st1 ?sid = Some s"
        and "snd (browserUseNavigateHandler w a st) =
               AList.update ?sid (s\<lparr>lastUsed := bu_now w, currentUrl := bu_url a\<rparr>) ?st1"
        by (auto simp: browserUseNavigateHandler_def Let_def split: option.splits sum.splits if_splits)
      with e show ?thesis
        using upd [of "s\<lparr>lastUsed := bu_now w, currentUrl := bu_url a\<rparr>" s] by simp
    qed
  next
    case history
    with assms CallTool have e: "e \<in> set (snd (getConversationHistoryHandler w a st))"
      by (simp add: browserUseConfig_def)
    show ?thesis
    proof (cases "map_of ?st1 ?sid")
      case None
      with e old show ?thesis by (simp add: getConversationHistoryHandler_def Let_def)
    next
      case (Some s)
      with e show ?thesis
        using upd [of "s\<lparr>lastUsed := bu_now w\<rparr>" s]
        by (simp add: getConversationHistoryHandler_def Let_def)
    qed
  next
    case list
    with assms CallTool old show ?thesis
      by (simp add: browserUseConfig_def listBrowserUseSessionsHandler_def Let_def)
  qed
qed

lemma bu_run_snoc: "bu_run (calls @ [c]) st = bu_exec c (bu_run calls st)"
  by (simp add: bu_run_def)

lemma key_preview_invariant:
  "e \<in> set (bu_run calls []) \<Longrightarrow> key_preview_ok calls e"
proof (induction calls arbitrary: e rule: rev_induct)
  case Nil
  then show ?case by (simp add: bu_run_def)
next
  case (snoc c calls)
  from snoc.prems have "e \<in> set (bu_exec c (bu_run calls []))" by (simp add: bu_run_snoc)
  then consider s where "(fst e, s) \<in> set (bu_run calls [])" "apiKey (snd e) = apiKey s"
    | w a key where "c = CallTool ''browseruse_natural_action'' w a"
        "fst e = default_sessionId (bu_sessionId a)"
        "check_apiKey (bu_apiKey a) = Inr key" "apiKey (snd e) = take 10 key @ ''...''"
    using bu_exec_entries by blast
  then show ?case
  proof cases
    case 1
    from snoc.IH [OF 1(1)] have "key_preview_ok calls (fst e, snd e)"
      using key_preview_same_key [of calls "fst e" s "snd e"] 1(2) by simp
    then show ?thesis
      using key_preview_mono by simp
  next
    case 2
    have "e = (default_sessionId (bu_sessionId a), snd e)"
      using 2(2) by (simp add: prod_eq_iff)
    then show ?thesis
      using key_preview_new [OF 2(3,4), of calls w] 2(1) by simp
  qed
qed

text \<open>
  Claim C10: in every state that the browser-use Session Store reaches from the empty
  store by tool calls and health checks, the \<open>apiKey\<close> field of every session is the
  first ten characters, followed by three dots, of a credential that passed the check in
  a \<open>browseruse_natural_action\<close> call for that session; it has 13 characters, the
  credential has at least 20, so it is never the credential itself. The listing tool
  returns these stored fields, of the sessions that survive its sweep, as
  \<open>apiKeyPreview\<close>.
\<close>

theorem stored_key_truncated:
  "(\<forall>e \<in> set (bu_run calls []). key_preview_ok calls e) \<and>
   (\<exists>infos. fst (listBrowserUseSessionsHandler w a (bu_run calls [])) =
        Inr (UseSessionList (length infos) (length (filter si_isActive infos)) infos) \<and>
      map apiKeyPreview infos =
        map (\<lambda>(sid, s). apiKey s) (bu_cleanupOldSessions (bu_now w) (bu_run calls [])) \<and>
      set (bu_cleanupOldSessions (bu_now w) (bu_run calls [])) \<subseteq> set (bu_run calls []))"
proof -
  have "\<forall>e \<in> set (bu_run calls []). key_preview_ok calls e"
    using key_preview_invariant by blast
  moreover have "map (apiKeyPreview \<circ> (\<lambda>(sid, s). bu_session_info_of now s)) st =
      map (\<lambda>(sid, s). apiKey s) st" for now and st :: "BrowserUseSession store"
    by (induction st) (auto simp: bu_session_info_of_def)
  ultimately show ?thesis
    using bu_cleanup_subset [of "bu_now w" "bu_run calls []"]
    by (simp add: listBrowserUseSessionsHandler_def Let_def)
qed

theorem stored_key_truncated_witness:
  "map (\<lambda>(sid, s). (sid, apiKey s))
     (bu_run [CallTool ''browseruse_natural_action'' \<lparr>bu_now = 5, pick = 1\<rparr>
                (no_bu_args\<lparr>bu_instruction := Some (JStr ''go''), bu_apiKey := Some good_key\<rparr>)] []) =
     [(''default'', ''sk-0123456...'')] \<and>
   supplied_keys [CallTool ''browseruse_natural_action'' \<lparr>bu_now = 5, pick = 1\<rparr>
                (no_bu_args\<lparr>bu_instruction := Some (JStr ''go''), bu_apiKey := Some good_key\<rparr>)] ''default'' =
     [good_key] \<and>
   list_all
     (key_preview_ok [CallTool ''browseruse_natural_action'' \<lparr>bu_now = 5, pick = 1\<rparr>
                (no_bu_args\<lparr>bu_instruction := Some (JStr ''go''), bu_apiKey := Some good_key\<rparr>)])
     (bu_run [CallTool ''browseruse_natural_action'' \<lparr>bu_now = 5, pick = 1\<rparr>
                (no_bu_args\<lparr>bu_instruction := Some (JStr ''go''), bu_apiKey := Some good_key\<rparr>)] [])"
proof -
  have key: "check_apiKey (Some good_key) = Inr good_key"
    by (simp add: check_apiKey_ok good_key_def)
  show ?thesis
    using stored_key_truncated [of "[CallTool ''browseruse_natural_action'' \<lparr>bu_now = 5, pick = 1\<rparr>
                (no_bu_args\<lparr>bu_instruction := Some (JStr ''go''), bu_apiKey := Some good_key\<rparr>)]"
        "\<lparr>bu_now = 5, pick = 1\<rparr>" no_bu_args] key
    by (simp add: bu_run_def browserUseConfig_def naturalLanguageActionHandler_def Let_def
        no_bu_args_def bu_cleanupOldSessions_def supplied_keys_def List.map_filter_def good_key_def
        list_all_iff interpreterResult_string)
qed

section \<open>The dispatcher\<close>

text \<open>What holds of the dispatcher: every envelope carries the id of its request, an
  exception of a registered handler becomes an error envelope with code \<open>-32000\<close>, and
  so does a tool name that is neither registered nor inherited.\<close>

lemma response_carries_request_id:
  "id (fst (handleMCPRequest builtin config w request st)) = req_id request"
  by (simp add: handleMCPRequest_def Let_def result_envelope_def error_envelope_def
      split: prod.splits sum.splits)

lemma handler_exception_enveloped:
  assumes "req_method request = ''tools/call''"
    and "req_params request = Some \<lparr>call_name = Some name, call_arguments = args\<rparr>"
    and "map_of (handlers config) name = Some h"
    and "h w args st = (Inl e, st')"
  shows "handleMCPRequest builtin config w request st =
           (\<lparr>jsonrpc = ''2.0'', id = req_id request, result = None,
             error = Some (- 32000, message e)\<rparr>, st')"
  using assms
  by (simp add: handleMCPRequest_def call_tool_def get_property_def error_envelope_def Let_def)

lemma unknown_tool_enveloped:
  assumes "req_method request = ''tools/call''"
    and "req_params request = Some \<lparr>call_name = Some name, call_arguments = args\<rparr>"
    and "map_of (handlers config) name = None"
    and "name \<notin> set object_prototype_keys"
  shows "handleMCPRequest builtin config w request st =
           (\<lparr>jsonrpc = ''2.0'', id = req_id request, result = None,
             error = Some (- 32000, ''Unknown tool: '' @ name)\<rparr>, st)"
  using assms
  by (simp add: handleMCPRequest_def call_tool_def get_property_def error_envelope_def Let_def)

text \<open>
  Claim C5 fails on the code: \<open>toString\<close> is not a key of the handler table of the
  reasoning tool-set, yet a \<open>tools/call\<close> request with this name gets a result
  envelope. The guard of line 156 reads \<open>config.handlers[name]\<close>, which finds the
  inherited function, and line 160 calls it.
\<close>

theorem inherited_name_returns_result:
  "map_of (handlers sequentialThinkingConfig) ''toString'' = None \<and>
   handleMCPRequest builtin sequentialThinkingConfig now
     \<lparr>req_id = IdNumber 1, req_method = ''tools/call'',
      req_params = Some \<lparr>call_name = Some ''toString'', call_arguments = args\<rparr>\<rparr> st =
     (\<lparr>jsonrpc = ''2.0'', id = IdNumber 1, result = Some (JsString ''[object Object]''),
       error = None\<rparr>, st)"
  by (simp add: sequentialThinkingConfig_def handleMCPRequest_def call_tool_def get_property_def
      object_prototype_keys_def call_inherited_def result_envelope_def Let_def)

end
